theory Spec2Isabelle
  imports Complex_Main
begin

section \<open>Python values\<close>

text \<open>
  The coordinator works on loosely typed JSON payloads (\<^verbatim>\<open>Any\<close>). A payload is a value of
  \<open>pyval\<close>. A dictionary is an association list in insertion order; its keys are strings
  (JSON objects) or integers (the normalized info map, keyed by account id). A finite float
  is kept as the rational number it denotes; \<open>-0.0\<close> and \<open>0.0\<close> are both \<open>Fin 0\<close>.
\<close>

datatype pykey = KStr string | KInt int

datatype pyfloat = Fin rat | PosInf | NegInf | NaN

datatype pyval =
    PNone
  | PBool bool
  | PInt int
  | PFloat pyfloat
  | PStr string
  | PList "pyval list"
  | PDict "(pykey \<times> pyval) list"

text \<open>
  Exceptions that can travel through the coordinator. \<open>MyGasAuthError\<close> is the remote
  layer's authentication error (with its message); \<open>OtherException cls msg\<close> is any other
  subclass of \<^verbatim>\<open>Exception\<close> raised by the remote layer; the rest are the built-in errors
  the coordinator's own statements can raise.
\<close>

datatype pyexc =
    MyGasAuthError string
  | OtherException string string
  | TypeError
  | ValueError
  | OverflowError
  | AttributeError
  | KeyError
  | IndexError
  | AssertionError

text \<open>Python truthiness (\<^verbatim>\<open>bool(v)\<close>); \<open>nan\<close> is truthy.\<close>

fun truthy :: "pyval \<Rightarrow> bool" where
  "truthy PNone = False"
| "truthy (PBool b) = b"
| "truthy (PInt n) = (n \<noteq> 0)"
| "truthy (PFloat f) = (f \<noteq> Fin 0)"
| "truthy (PStr s) = (s \<noteq> [])"
| "truthy (PList xs) = (xs \<noteq> [])"
| "truthy (PDict kv) = (kv \<noteq> [])"

text \<open>\<^verbatim>\<open>d.get(k)\<close> on a dictionary: the value, or \<^verbatim>\<open>None\<close> when the key is missing.\<close>

definition dict_get :: "(pykey \<times> pyval) list \<Rightarrow> string \<Rightarrow> pyval" where
  "dict_get kv k = (case map_of kv (KStr k) of None \<Rightarrow> PNone | Some v \<Rightarrow> v)"

text \<open>\<^verbatim>\<open>a or b\<close>.\<close>

definition py_or :: "pyval \<Rightarrow> pyval \<Rightarrow> pyval" where
  "py_or a b = (if truthy a then a else b)"

section \<open>Built-in conversions and accessors\<close>

text \<open>
  What the coordinator takes from files that are not under src (const.py, helpers.py) and
  from the Python runtime's string parsers is a parameter of the model: the key constants,
  the update window, \<^verbatim>\<open>make_device_id\<close>, \<^verbatim>\<open>get_update_interval\<close> (a \<^verbatim>\<open>timedelta\<close>, counted in
  microseconds), and the parsing done by \<^verbatim>\<open>int(str)\<close> and \<^verbatim>\<open>float(str)\<close> (\<open>None\<close> where
  Python raises \<^verbatim>\<open>ValueError\<close>).
\<close>

record env =
  DOMAIN :: string
  ATTR_ACCOUNT_ID :: string
  ATTR_COUNTERS :: string
  ATTR_ELS :: string
  ATTR_JNT_ACCOUNT_NUM :: string
  ATTR_LSPU_INFO_GROUP :: string
  ATTR_UUID :: string
  CONF_ACCOUNT :: string
  UPDATE_HOUR_BEGIN :: int
  UPDATE_HOUR_END :: int
  make_device_id :: "pyval \<Rightarrow> pyval \<Rightarrow> pyexc + string"
  get_update_interval :: "int \<Rightarrow> int \<Rightarrow> int \<Rightarrow> int"
  int_of_str :: "string \<Rightarrow> int option"
  float_of_str :: "string \<Rightarrow> pyfloat option"

text \<open>
  \<^verbatim>\<open>float(n)\<close> for an integer: the nearest binary64 value (53 significant bits, ties to
  even), and \<^verbatim>\<open>OverflowError\<close> when that value is not below \<open>2 ^ 1024\<close>.
\<close>

fun bit_length :: "nat \<Rightarrow> nat" where
  "bit_length n = (if n = 0 then 0 else Suc (bit_length (n div 2)))"

definition round_significand :: "nat \<Rightarrow> nat" where
  "round_significand m =
     (if m < 2 ^ 53 then m
      else let e = bit_length m - 53;
               q = m div 2 ^ e;
               r = m mod 2 ^ e;
               h = 2 ^ (e - 1)
           in (if h < r \<or> (r = h \<and> odd q) then q + 1 else q) * 2 ^ e)"

definition float_of_int :: "int \<Rightarrow> pyexc + pyfloat" where
  "float_of_int n =
     (let m = round_significand (nat \<bar>n\<bar>)
      in if 2 ^ 1024 \<le> m then Inl OverflowError
         else Inr (Fin (of_int (sgn n * int m))))"

text \<open>\<^verbatim>\<open>float(v)\<close>.\<close>

definition py_float :: "env \<Rightarrow> pyval \<Rightarrow> pyexc + pyfloat" where
  "py_float E v =
     (case v of
        PNone \<Rightarrow> Inl TypeError
      | PBool b \<Rightarrow> Inr (Fin (if b then 1 else 0))
      | PInt n \<Rightarrow> float_of_int n
      | PFloat f \<Rightarrow> Inr f
      | PStr s \<Rightarrow> (case float_of_str E s of None \<Rightarrow> Inl ValueError | Some f \<Rightarrow> Inr f)
      | PList xs \<Rightarrow> Inl TypeError
      | PDict kv \<Rightarrow> Inl TypeError)"

text \<open>\<^verbatim>\<open>int(v)\<close>: a float is truncated towards zero.\<close>

definition py_int :: "env \<Rightarrow> pyval \<Rightarrow> pyexc + int" where
  "py_int E v =
     (case v of
        PNone \<Rightarrow> Inl TypeError
      | PBool b \<Rightarrow> Inr (if b then 1 else 0)
      | PInt n \<Rightarrow> Inr n
      | PFloat f \<Rightarrow>
          (case f of
             Fin r \<Rightarrow> Inr (if 0 \<le> r then \<lfloor>r\<rfloor> else \<lceil>r\<rceil>)
           | PosInf \<Rightarrow> Inl OverflowError
           | NegInf \<Rightarrow> Inl OverflowError
           | NaN \<Rightarrow> Inl ValueError)
      | PStr s \<Rightarrow> (case int_of_str E s of None \<Rightarrow> Inl ValueError | Some n \<Rightarrow> Inr n)
      | PList xs \<Rightarrow> Inl TypeError
      | PDict kv \<Rightarrow> Inl TypeError)"

text \<open>\<^verbatim>\<open>abs(f)\<close> on a float.\<close>

definition py_abs :: "pyfloat \<Rightarrow> pyfloat" where
  "py_abs f = (case f of Fin r \<Rightarrow> Fin \<bar>r\<bar> | PosInf \<Rightarrow> PosInf | NegInf \<Rightarrow> PosInf | NaN \<Rightarrow> NaN)"

text \<open>\<^verbatim>\<open>v.get(k, d)\<close>: only a dictionary has the method.\<close>

definition py_get :: "pyval \<Rightarrow> string \<Rightarrow> pyval \<Rightarrow> pyexc + pyval" where
  "py_get v k d =
     (case v of
        PDict kv \<Rightarrow> Inr (case map_of kv (KStr k) of None \<Rightarrow> d | Some x \<Rightarrow> x)
      | _ \<Rightarrow> Inl AttributeError)"

text \<open>\<^verbatim>\<open>v[k]\<close> with a string key.\<close>

definition py_getitem_str :: "pyval \<Rightarrow> string \<Rightarrow> pyexc + pyval" where
  "py_getitem_str v k =
     (case v of
        PDict kv \<Rightarrow> (case map_of kv (KStr k) of None \<Rightarrow> Inl KeyError | Some x \<Rightarrow> Inr x)
      | _ \<Rightarrow> Inl TypeError)"

text \<open>\<^verbatim>\<open>v[i]\<close> with a non-negative integer index.\<close>

definition py_getitem_idx :: "pyval \<Rightarrow> nat \<Rightarrow> pyexc + pyval" where
  "py_getitem_idx v i =
     (case v of
        PList xs \<Rightarrow> (if i < length xs then Inr (xs ! i) else Inl IndexError)
      | PStr s \<Rightarrow> (if i < length s then Inr (PStr [s ! i]) else Inl IndexError)
      | PDict kv \<Rightarrow> (case map_of kv (KInt (int i)) of None \<Rightarrow> Inl KeyError | Some x \<Rightarrow> Inr x)
      | _ \<Rightarrow> Inl TypeError)"

text \<open>\<^verbatim>\<open>len(v)\<close>.\<close>

definition py_len :: "pyval \<Rightarrow> pyexc + nat" where
  "py_len v =
     (case v of
        PList xs \<Rightarrow> Inr (length xs)
      | PStr s \<Rightarrow> Inr (length s)
      | PDict kv \<Rightarrow> Inr (length kv)
      | _ \<Rightarrow> Inl TypeError)"

text \<open>The elements a \<^verbatim>\<open>for\<close> loop over \<open>v\<close> visits: a dictionary gives its keys.\<close>

definition key_value :: "pykey \<Rightarrow> pyval" where
  "key_value k = (case k of KStr s \<Rightarrow> PStr s | KInt i \<Rightarrow> PInt i)"

definition py_iter :: "pyval \<Rightarrow> pyexc + pyval list" where
  "py_iter v =
     (case v of
        PList xs \<Rightarrow> Inr xs
      | PStr s \<Rightarrow> Inr (map (\<lambda>c. PStr [c]) s)
      | PDict kv \<Rightarrow> Inr (map (\<lambda>p. key_value (fst p)) kv)
      | _ \<Rightarrow> Inl TypeError)"

text \<open>\<^verbatim>\<open>d[k] = v\<close> on the info map: an existing key keeps its place, a new one goes last.\<close>

fun dict_set :: "(int \<times> pyval) list \<Rightarrow> int \<Rightarrow> pyval \<Rightarrow> (int \<times> pyval) list" where
  "dict_set [] k v = [(k, v)]"
| "dict_set (p # ps) k v = (if fst p = k then (k, v) # ps else p # dict_set ps k v)"

text \<open>
  \<^verbatim>\<open>randrange(a, b)\<close>: the raw draw \<open>r\<close> is reduced into \<open>[a, b)\<close>; an empty range raises
  \<^verbatim>\<open>ValueError\<close> (\<open>None\<close>).
\<close>

definition randrange :: "int \<Rightarrow> int \<Rightarrow> nat \<Rightarrow> int option" where
  "randrange a b r = (if a < b then Some (a + int r mod (b - a)) else None)"

section \<open>Response shape: the LSPU list\<close>

text \<open>
  \<^verbatim>\<open>_get_lspu_list\<close> (coordinator.py, lines 89-101). No statement of it can raise:
  \<^verbatim>\<open>isinstance\<close>, \<^verbatim>\<open>dict.get\<close> and \<^verbatim>\<open>or\<close> are total.
\<close>

definition get_lspu_list :: "pyval \<Rightarrow> pyval list" where
  "get_lspu_list accounts_info =
     (case accounts_info of
        PDict kv \<Rightarrow>
          (let lspu_list =
                 py_or (dict_get kv ''lspu'')
                   (py_or (dict_get kv ''lspuGroup'')
                      (py_or (dict_get kv ''lspuInfoGroup'') (PList [])))
           in case lspu_list of PList xs \<Rightarrow> xs | _ \<Rightarrow> [])
      | _ \<Rightarrow> [])"

text \<open>
  The resolution rule as the specification words it: the keys are inspected in order and the
  first value that is present and not null wins; a resolved value that is not a list, and any
  input that is not a mapping, give the empty list.
\<close>

fun first_non_null :: "pyval list \<Rightarrow> pyval" where
  "first_non_null [] = PList []"
| "first_non_null (v # vs) = (if v \<noteq> PNone then v else first_non_null vs)"

definition spec_lspu_list :: "pyval \<Rightarrow> pyval list" where
  "spec_lspu_list accounts_info =
     (case accounts_info of
        PDict kv \<Rightarrow>
          (case first_non_null
                  [dict_get kv ''lspu'', dict_get kv ''lspuGroup'', dict_get kv ''lspuInfoGroup'']
           of PList xs \<Rightarrow> xs | _ \<Rightarrow> [])
      | _ \<Rightarrow> [])"

text \<open>The rule the code follows: the first truthy value wins.\<close>

fun first_truthy :: "pyval list \<Rightarrow> pyval" where
  "first_truthy [] = PList []"
| "first_truthy (v # vs) = (if truthy v then v else first_truthy vs)"

section \<open>Balance extractor\<close>

text \<open>
  \<^verbatim>\<open>_extract_balance_from_info\<close> (coordinator.py, lines 103-149). A scan step gives \<open>None\<close>
  to go on scanning, \<open>Some (Inr f)\<close> where the source returns the float \<open>f\<close>, and
  \<open>Some (Inl e)\<close> where \<^verbatim>\<open>float(...)\<close> raises \<open>e\<close>.

  The two-tier check on one mapping, written twice in the source (lines 126-136 for an
  element of a list, lines 140-147 for a value that is itself a mapping):
  first \<^verbatim>\<open>services[0].balance\<close>, then the mapping's own \<^verbatim>\<open>balance\<close>.
\<close>

definition balance_of_mapping :: "env \<Rightarrow> (pykey \<times> pyval) list \<Rightarrow> (pyexc + pyfloat) option" where
  "balance_of_mapping E item =
     (let own = (if dict_get item ''balance'' \<noteq> PNone
                 then Some (py_float E (dict_get item ''balance'')) else None)
      in case dict_get item ''services'' of
           PList (s0 # rest) \<Rightarrow>
             (case s0 of
                PDict kv0 \<Rightarrow>
                  (if dict_get kv0 ''balance'' \<noteq> PNone
                   then Some (py_float E (dict_get kv0 ''balance''))
                   else own)
              | _ \<Rightarrow> own)
         | _ \<Rightarrow> own)"

fun scan_list :: "env \<Rightarrow> pyval list \<Rightarrow> (pyexc + pyfloat) option" where
  "scan_list E [] = None"
| "scan_list E (item # rest) =
     (case item of
        PDict kv \<Rightarrow>
          (case balance_of_mapping E kv of
             None \<Rightarrow> scan_list E rest
           | Some r \<Rightarrow> Some r)
      | _ \<Rightarrow> scan_list E rest)"

fun scan_info :: "env \<Rightarrow> (pykey \<times> pyval) list \<Rightarrow> (pyexc + pyfloat) option" where
  "scan_info E [] = None"
| "scan_info E (p # rest) =
     (if \<not> truthy (snd p) then scan_info E rest
      else case snd p of
             PList xs \<Rightarrow>
               (case scan_list E xs of
                  None \<Rightarrow> scan_info E rest
                | Some r \<Rightarrow> Some r)
           | PDict kv \<Rightarrow>
               (case balance_of_mapping E kv of
                  None \<Rightarrow> scan_info E rest
                | Some r \<Rightarrow> Some r)
           | _ \<Rightarrow> scan_info E rest)"

text \<open>
  The \<^verbatim>\<open>try\<close> around the scan catches \<^verbatim>\<open>TypeError\<close> and \<^verbatim>\<open>ValueError\<close> only; any other
  exception leaves the function.
\<close>

definition extract_balance_from_info :: "env \<Rightarrow> pyval \<Rightarrow> pyexc + pyfloat option" where
  "extract_balance_from_info E info =
     (case info of
        PDict kv \<Rightarrow>
          (case scan_info E kv of
             None \<Rightarrow> Inr None
           | Some (Inr f) \<Rightarrow> Inr (Some f)
           | Some (Inl e) \<Rightarrow> (if e = TypeError \<or> e = ValueError then Inr None else Inl e))
      | _ \<Rightarrow> Inr None)"

section \<open>Coordinator state and the remote layer\<close>

text \<open>
  The result of a poll (\<^verbatim>\<open>new_data\<close>, and \<^verbatim>\<open>self.data\<close> once the host has stored it) is a
  dictionary over five key constants; a field is \<open>None\<close> when the key is missing.
\<close>

record polldata =
  ATTR_LAST_UPDATE_TIME :: "int option"
  CONF_ACCOUNTS :: "pyval option"
  ATTR_IS_ELS :: "bool option"
  CONF_INFO :: "(int \<times> pyval) list option"
  ATTR_BALANCE :: "pyfloat option"

definition empty_data :: polldata where
  "empty_data =
     \<lparr>ATTR_LAST_UPDATE_TIME = None, CONF_ACCOUNTS = None, ATTR_IS_ELS = None,
      CONF_INFO = None, ATTR_BALANCE = None\<rparr>"

text \<open>
  A call of the remote layer, as the coordinator issues it through its decorated methods
  \<^verbatim>\<open>_async_get_accounts\<close>, \<^verbatim>\<open>_async_get_els_info\<close>, \<^verbatim>\<open>_async_get_lspu_info\<close> and
  \<^verbatim>\<open>_async_send_readings\<close>. The remote layer (aiomygas and decorators.py are not under src)
  is a parameter: it answers a call, given all calls answered before, with a value or an
  exception. The coordinator's \<open>api_log\<close> keeps that history.
\<close>

datatype call =
    GetAccounts
  | GetElsInfo int
  | GetLspuInfo int
  | SendReadings pyval pyval pyval "int option"

type_synonym outcome = "pyexc + pyval"

type_synonym remote = "(call \<times> outcome) list \<Rightarrow> call \<Rightarrow> outcome"

record coordinator =
  data :: polldata
  force_next_update :: bool
  auto_update :: bool
  update_interval :: "int option"
  device_registry :: "string \<Rightarrow> (string \<times> string) set option"
  api_log :: "(call \<times> outcome) list"

definition api_call :: "remote \<Rightarrow> call \<Rightarrow> coordinator \<Rightarrow> outcome \<times> coordinator" where
  "api_call R c s = (let r = R (api_log s) c in (r, s\<lparr>api_log := api_log s @ [(c, r)]\<rparr>))"

section \<open>Detail fetchers\<close>

text \<open>Line 258, \<^verbatim>\<open>els.get("els", {}).get("id")\<close>.\<close>

definition els_item_id :: "pyval \<Rightarrow> pyexc + pyval" where
  "els_item_id els =
     (case py_get els ''els'' (PDict []) of
        Inl e \<Rightarrow> Inl e
      | Inr inner \<Rightarrow> py_get inner ''id'' PNone)"

text \<open>The loop of \<^verbatim>\<open>retrieve_els_accounts_info\<close> (lines 257-269).\<close>

fun els_loop ::
  "env \<Rightarrow> remote \<Rightarrow> pyval list \<Rightarrow> (int \<times> pyval) list \<Rightarrow> coordinator
    \<Rightarrow> (pyexc + (int \<times> pyval) list) \<times> coordinator" where
  "els_loop E R [] els_info s = (Inr els_info, s)"
| "els_loop E R (els # rest) els_info s =
     (case els_item_id els of
        Inl e \<Rightarrow> (Inl e, s)
      | Inr els_id \<Rightarrow>
          (if \<not> truthy els_id then els_loop E R rest els_info s
           else case py_int E els_id of
                  Inl e \<Rightarrow> (Inl e, s)
                | Inr i \<Rightarrow>
                    (case api_call R (GetElsInfo i) s of
                       (Inl e, s') \<Rightarrow> (Inl e, s')
                     | (Inr els_item_info, s') \<Rightarrow>
                         els_loop E R rest
                           (if truthy els_item_info then dict_set els_info i els_item_info
                            else els_info) s')))"

definition retrieve_els_accounts_info ::
  "env \<Rightarrow> remote \<Rightarrow> pyval \<Rightarrow> coordinator \<Rightarrow> (pyexc + (int \<times> pyval) list) \<times> coordinator" where
  "retrieve_els_accounts_info E R accounts_info s =
     (case py_get accounts_info ''elsGroup'' PNone of
        Inl e \<Rightarrow> (Inl e, s)
      | Inr g \<Rightarrow>
          (case py_iter (py_or g (PList [])) of
             Inl e \<Rightarrow> (Inl e, s)
           | Inr els_list \<Rightarrow> els_loop E R els_list [] s))"

text \<open>Line 280, \<^verbatim>\<open>lspu.get("id")\<close>.\<close>

definition lspu_item_id :: "pyval \<Rightarrow> pyexc + pyval" where
  "lspu_item_id lspu = py_get lspu ''id'' PNone"

text \<open>The loop of \<^verbatim>\<open>retrieve_lspu_accounts_info\<close> (lines 279-296).\<close>

fun lspu_loop ::
  "env \<Rightarrow> remote \<Rightarrow> pyval list \<Rightarrow> (int \<times> pyval) list \<Rightarrow> coordinator
    \<Rightarrow> (pyexc + (int \<times> pyval) list) \<times> coordinator" where
  "lspu_loop E R [] lspu_info s = (Inr lspu_info, s)"
| "lspu_loop E R (lspu # rest) lspu_info s =
     (case lspu_item_id lspu of
        Inl e \<Rightarrow> (Inl e, s)
      | Inr lspu_id \<Rightarrow>
          (if \<not> truthy lspu_id then lspu_loop E R rest lspu_info s
           else case py_int E lspu_id of
                  Inl e \<Rightarrow> (Inl e, s)
                | Inr i \<Rightarrow>
                    (case api_call R (GetLspuInfo i) s of
                       (Inl e, s') \<Rightarrow> (Inl e, s')
                     | (Inr lspu_item_info, s') \<Rightarrow>
                         lspu_loop E R rest
                           (if truthy lspu_item_info
                            then dict_set lspu_info i
                                   (case lspu_item_info of
                                      PList xs \<Rightarrow> lspu_item_info
                                    | _ \<Rightarrow> PList [lspu_item_info])
                            else lspu_info) s')))"


definition retrieve_lspu_accounts_info ::
  "env \<Rightarrow> remote \<Rightarrow> pyval \<Rightarrow> coordinator \<Rightarrow> (pyexc + (int \<times> pyval) list) \<times> coordinator" where
  "retrieve_lspu_accounts_info E R accounts_info s =
     lspu_loop E R (get_lspu_list accounts_info) [] s"



section \<open>Refresh orchestrator\<close>

text \<open>
  What a poll raises to the host: the two conditions the \<^verbatim>\<open>except\<close> clauses build
  (\<open>UpdateFailed e\<close> stands for \<^verbatim>\<open>UpdateFailed(f"Error communicating with API: {e}")\<close>, raised
  from \<open>e\<close>), and an exception raised in the \<^verbatim>\<open>finally\<close> block, which no clause maps.
\<close>

datatype poll_error =
    ConfigEntryAuthFailed string
  | UpdateFailed pyexc
  | Unhandled pyexc

text \<open>The normalized info map as the \<^verbatim>\<open>Any\<close> value handed to the balance extractor.\<close>

definition info_value :: "(int \<times> pyval) list \<Rightarrow> pyval" where
  "info_value i = PDict (map (\<lambda>p. (KInt (fst p), snd p)) i)"

text \<open>
  Line 166, \<^verbatim>\<open>_data.get(CONF_ACCOUNTS)\<close>: the cached raw accounts, \<^verbatim>\<open>None\<close> when the key is
  missing. (\<^verbatim>\<open>self.data\<close> is a dictionary by its declared type, so \<^verbatim>\<open>_data\<close> is
  \<^verbatim>\<open>self.data\<close>.)
\<close>

definition cached_accounts :: "coordinator \<Rightarrow> pyval" where
  "cached_accounts s = (case CONF_ACCOUNTS (data s) of None \<Rightarrow> PNone | Some a \<Rightarrow> a)"

text \<open>
  Lines 166-180: the cached accounts, or a fresh fetch. \<open>Inr None\<close> is the early
  \<^verbatim>\<open>return new_data\<close> after a fetch that gave falsy data.
\<close>

definition update_fetch_accounts ::
  "remote \<Rightarrow> coordinator \<Rightarrow> (pyexc + pyval option) \<times> coordinator" where
  "update_fetch_accounts R s =
     (if cached_accounts s = PNone \<or> force_next_update s
      then (case api_call R GetAccounts s of
              (Inl e, s') \<Rightarrow> (Inl e, s')
            | (Inr accounts_info, s') \<Rightarrow>
                (if truthy accounts_info then (Inr (Some accounts_info), s')
                 else (Inr None, s')))
      else (Inr (Some (cached_accounts s)), s))"

text \<open>
  Lines 200-201 and 212-213, the same two statements in the ELS and in the LSPU branch:
  the balance, when one is extracted, is stored as \<^verbatim>\<open>abs(float(balance))\<close>.
\<close>

definition store_balance :: "env \<Rightarrow> polldata \<Rightarrow> pyexc + polldata" where
  "store_balance E new_data =
     (case extract_balance_from_info E
             (case CONF_INFO new_data of None \<Rightarrow> PNone | Some i \<Rightarrow> info_value i) of
        Inl e \<Rightarrow> Inl e
      | Inr None \<Rightarrow> Inr new_data
      | Inr (Some balance) \<Rightarrow> Inr (new_data\<lparr>ATTR_BALANCE := Some (py_abs balance)\<rparr>))"

text \<open>Lines 182-228: branch detection, detail fetch and balance.\<close>

definition update_fill_info ::
  "env \<Rightarrow> remote \<Rightarrow> polldata \<Rightarrow> pyval \<Rightarrow> coordinator \<Rightarrow> (pyexc + polldata) \<times> coordinator" where
  "update_fill_info E R new_data0 accounts_info s =
     (let new_data = new_data0\<lparr>CONF_ACCOUNTS := Some accounts_info\<rparr>;
          els_group = (case accounts_info of PDict kv \<Rightarrow> dict_get kv ''elsGroup'' | _ \<Rightarrow> PNone);
          lspu_list = get_lspu_list accounts_info
      in if truthy els_group then
           (case retrieve_els_accounts_info E R accounts_info s of
              (Inl e, s') \<Rightarrow> (Inl e, s')
            | (Inr i, s') \<Rightarrow>
                (case store_balance E (new_data\<lparr>ATTR_IS_ELS := Some True, CONF_INFO := Some i\<rparr>) of
                   Inl e \<Rightarrow> (Inl e, s')
                 | Inr d \<Rightarrow> (Inr d, s')))
         else if lspu_list \<noteq> [] then
           (case retrieve_lspu_accounts_info E R accounts_info s of
              (Inl e, s') \<Rightarrow> (Inl e, s')
            | (Inr i, s') \<Rightarrow>
                (case store_balance E (new_data\<lparr>ATTR_IS_ELS := Some False, CONF_INFO := Some i\<rparr>) of
                   Inl e \<Rightarrow> (Inl e, s')
                 | Inr d \<Rightarrow> (Inr d, s')))
         else (Inr (new_data\<lparr>CONF_INFO := Some [], ATTR_IS_ELS := Some False\<rparr>), s))"

text \<open>The body of the \<^verbatim>\<open>try\<close> (lines 165-228); \<open>now\<close> is \<^verbatim>\<open>dt_util.now()\<close>.\<close>

definition update_try ::
  "env \<Rightarrow> remote \<Rightarrow> int \<Rightarrow> coordinator \<Rightarrow> (pyexc + polldata) \<times> coordinator" where
  "update_try E R now s =
     (let new_data = empty_data\<lparr>ATTR_LAST_UPDATE_TIME := Some now\<rparr>
      in case update_fetch_accounts R s of
           (Inl e, s') \<Rightarrow> (Inl e, s')
         | (Inr None, s') \<Rightarrow> (Inr new_data, s')
         | (Inr (Some accounts_info), s') \<Rightarrow> update_fill_info E R new_data accounts_info s')"

text \<open>The \<^verbatim>\<open>except\<close> clauses (lines 230-233).\<close>

definition map_exception :: "pyexc \<Rightarrow> poll_error" where
  "map_exception e =
     (case e of
        MyGasAuthError m \<Rightarrow> ConfigEntryAuthFailed ''Incorrect Login or Password''
      | _ \<Rightarrow> UpdateFailed e)"

text \<open>
  The \<^verbatim>\<open>finally\<close> block (lines 239-251), run on every path; \<open>r1\<close>, \<open>r2\<close>, \<open>r3\<close> are the raw
  draws of its three \<^verbatim>\<open>randrange\<close> calls. An exception raised here replaces the poll's
  outcome.
\<close>

definition update_finally ::
  "env \<Rightarrow> nat \<Rightarrow> nat \<Rightarrow> nat \<Rightarrow> (poll_error + polldata) \<Rightarrow> coordinator
    \<Rightarrow> (poll_error + polldata) \<times> coordinator" where
  "update_finally E r1 r2 r3 res s0 =
     (let s = s0\<lparr>force_next_update := False\<rparr>
      in if auto_update s then
           (case randrange (UPDATE_HOUR_BEGIN E) (UPDATE_HOUR_END E) r1 of
              None \<Rightarrow> (Inl (Unhandled ValueError), s)
            | Some h \<Rightarrow>
                (case randrange 0 60 r2 of
                   None \<Rightarrow> (Inl (Unhandled ValueError), s)
                 | Some m \<Rightarrow>
                     (case randrange 0 60 r3 of
                        None \<Rightarrow> (Inl (Unhandled ValueError), s)
                      | Some sec \<Rightarrow>
                          (res, s\<lparr>update_interval := Some (get_update_interval E h m sec)\<rparr>))))
         else (res, s\<lparr>update_interval := None\<rparr>))"

text \<open>\<^verbatim>\<open>_async_update_data\<close> (lines 151-251).\<close>

definition async_update_data ::
  "env \<Rightarrow> remote \<Rightarrow> int \<Rightarrow> nat \<Rightarrow> nat \<Rightarrow> nat \<Rightarrow> coordinator
    \<Rightarrow> (poll_error + polldata) \<times> coordinator" where
  "async_update_data E R now r1 r2 r3 s =
     (case update_try E R now s of
        (Inl e, s') \<Rightarrow> update_finally E r1 r2 r3 (Inl (map_exception e)) s'
      | (Inr new_data, s') \<Rightarrow> update_finally E r1 r2 r3 (Inr new_data) s')"

section \<open>Account path resolver\<close>

definition get_accounts :: "coordinator \<Rightarrow> (int \<times> pyval) list" where
  "get_accounts s = (case CONF_INFO (data s) of None \<Rightarrow> [] | Some i \<Rightarrow> i)"

definition is_els :: "coordinator \<Rightarrow> bool" where
  "is_els s = (case ATTR_IS_ELS (data s) of None \<Rightarrow> False | Some b \<Rightarrow> b)"

definition get_account_number :: "env \<Rightarrow> coordinator \<Rightarrow> int \<Rightarrow> nat \<Rightarrow> pyexc + pyval" where
  "get_account_number E s account_id lspu_account_id =
     (case map_of (get_accounts s) account_id of
        None \<Rightarrow> Inl KeyError
      | Some account \<Rightarrow>
          (if is_els s then
             (case py_get account (ATTR_ELS E) (PDict []) of
                Inl e \<Rightarrow> Inl e
              | Inr els \<Rightarrow> py_get els (ATTR_JNT_ACCOUNT_NUM E) PNone)
           else
             (case py_getitem_idx account lspu_account_id of
                Inl e \<Rightarrow> Inl e
              | Inr lspu \<Rightarrow> py_get lspu (CONF_ACCOUNT E) PNone)))"

definition get_lspu_accounts :: "env \<Rightarrow> coordinator \<Rightarrow> int \<Rightarrow> pyexc + pyval" where
  "get_lspu_accounts E s account_id =
     (case map_of (get_accounts s) account_id of
        None \<Rightarrow> Inl KeyError
      | Some d \<Rightarrow>
          (if is_els s then py_getitem_str d (ATTR_LSPU_INFO_GROUP E)
           else Inr (case d of PList xs \<Rightarrow> d | _ \<Rightarrow> PList [d])))"

definition get_counters :: "env \<Rightarrow> coordinator \<Rightarrow> int \<Rightarrow> nat \<Rightarrow> pyexc + pyval" where
  "get_counters E s account_id lspu_account_id =
     (case get_lspu_accounts E s account_id of
        Inl e \<Rightarrow> Inl e
      | Inr lspu_accounts \<Rightarrow>
          (case py_getitem_idx lspu_accounts lspu_account_id of
             Inl e \<Rightarrow> Inl e
           | Inr account \<Rightarrow> py_get account (ATTR_COUNTERS E) (PList [])))"

text \<open>
  \<^verbatim>\<open>find_account_by_device_id\<close> (lines 350-375): the three nested loops, innermost first.
  A loop gives \<open>Inr None\<close> when it ends without a match.
\<close>

fun find_counter ::
  "env \<Rightarrow> coordinator \<Rightarrow> (string \<times> string) set \<Rightarrow> int \<Rightarrow> nat \<Rightarrow> nat list
    \<Rightarrow> pyexc + (int \<times> nat \<times> nat) option" where
  "find_counter E s ids a l [] = Inr None"
| "find_counter E s ids a l (c # cs) =
     (case get_account_number E s a l of
        Inl e \<Rightarrow> Inl e
      | Inr account_number \<Rightarrow>
          (case get_counters E s a l of
             Inl e \<Rightarrow> Inl e
           | Inr counters \<Rightarrow>
               (case py_getitem_idx counters c of
                  Inl e \<Rightarrow> Inl e
                | Inr counter \<Rightarrow>
                    (case py_get counter (ATTR_UUID E) PNone of
                       Inl e \<Rightarrow> Inl e
                     | Inr counter_uuid \<Rightarrow>
                         (if \<not> truthy counter_uuid then Inl AssertionError
                          else case make_device_id E account_number counter_uuid of
                                 Inl e \<Rightarrow> Inl e
                               | Inr dev \<Rightarrow>
                                   (if ids = {(DOMAIN E, dev)} then Inr (Some (a, l, c))
                                    else find_counter E s ids a l cs))))))"

fun find_lspu ::
  "env \<Rightarrow> coordinator \<Rightarrow> (string \<times> string) set \<Rightarrow> int \<Rightarrow> nat list
    \<Rightarrow> pyexc + (int \<times> nat \<times> nat) option" where
  "find_lspu E s ids a [] = Inr None"
| "find_lspu E s ids a (l # ls) =
     (case get_counters E s a l of
        Inl e \<Rightarrow> Inl e
      | Inr counters \<Rightarrow>
          (case py_len counters of
             Inl e \<Rightarrow> Inl e
           | Inr n \<Rightarrow>
               (case find_counter E s ids a l [0..<n] of
                  Inl e \<Rightarrow> Inl e
                | Inr (Some t) \<Rightarrow> Inr (Some t)
                | Inr None \<Rightarrow> find_lspu E s ids a ls)))"

fun find_account ::
  "env \<Rightarrow> coordinator \<Rightarrow> (string \<times> string) set \<Rightarrow> int list
    \<Rightarrow> pyexc + (int \<times> nat \<times> nat) option" where
  "find_account E s ids [] = Inr None"
| "find_account E s ids (a # as) =
     (case get_lspu_accounts E s a of
        Inl e \<Rightarrow> Inl e
      | Inr lspu_accounts \<Rightarrow>
          (case py_len lspu_accounts of
             Inl e \<Rightarrow> Inl e
           | Inr n \<Rightarrow>
               (case find_lspu E s ids a [0..<n] of
                  Inl e \<Rightarrow> Inl e
                | Inr (Some t) \<Rightarrow> Inr (Some t)
                | Inr None \<Rightarrow> find_account E s ids as)))"

definition find_account_by_device_id ::
  "env \<Rightarrow> coordinator \<Rightarrow> string \<Rightarrow> pyexc + (int option \<times> nat option \<times> nat option)" where
  "find_account_by_device_id E s device_id =
     (case device_registry s device_id of
        None \<Rightarrow> Inl AssertionError
      | Some ids \<Rightarrow>
          (case find_account E s ids (map fst (get_accounts s)) of
             Inl e \<Rightarrow> Inl e
           | Inr (Some t) \<Rightarrow> Inr (Some (fst t), Some (fst (snd t)), Some (snd (snd t)))
           | Inr None \<Rightarrow> Inr (None, None, None)))"

text \<open>
  The stable identifier re-derived at a path: \<^verbatim>\<open>make_device_id\<close> of
  \<^verbatim>\<open>get_account_number(a, l)\<close> and the \<^verbatim>\<open>uuid\<close> of the counter at \<open>(a, l, c)\<close>.
\<close>

definition stable_id :: "env \<Rightarrow> coordinator \<Rightarrow> int \<Rightarrow> nat \<Rightarrow> nat \<Rightarrow> pyexc + string" where
  "stable_id E s a l c =
     (case get_account_number E s a l of
        Inl e \<Rightarrow> Inl e
      | Inr account_number \<Rightarrow>
          (case get_counters E s a l of
             Inl e \<Rightarrow> Inl e
           | Inr counters \<Rightarrow>
               (case py_getitem_idx counters c of
                  Inl e \<Rightarrow> Inl e
                | Inr counter \<Rightarrow>
                    (case py_get counter (ATTR_UUID E) PNone of
                       Inl e \<Rightarrow> Inl e
                     | Inr counter_uuid \<Rightarrow> make_device_id E account_number counter_uuid))))"

section \<open>Command dispatch\<close>

text \<open>
  \<^verbatim>\<open>async_send_readings\<close> (lines 452-484); an \<^verbatim>\<open>assert\<close> that fails raises. First the
  statements after the three components are known to be present (lines 463-484).
\<close>

definition send_readings_at ::
  "env \<Rightarrow> remote \<Rightarrow> pyval \<Rightarrow> int \<Rightarrow> nat \<Rightarrow> nat \<Rightarrow> coordinator \<Rightarrow> outcome \<times> coordinator" where
  "send_readings_at E R val account_id lspu_account_id counter_id s =
     (case get_lspu_accounts E s account_id of
        Inl e \<Rightarrow> (Inl e, s)
      | Inr lspu_accounts \<Rightarrow>
     (if \<not> truthy lspu_accounts then (Inl AssertionError, s) else
     (case py_getitem_idx lspu_accounts lspu_account_id of
        Inl e \<Rightarrow> (Inl e, s)
      | Inr lspu_account \<Rightarrow>
     (if \<not> truthy lspu_account then (Inl AssertionError, s) else
     (case py_getitem_str lspu_account (ATTR_ACCOUNT_ID E) of
        Inl e \<Rightarrow> (Inl e, s)
      | Inr lspu_id \<Rightarrow>
     (let els_id = (if is_els s then Some account_id else None) in
     (case get_counters E s account_id lspu_account_id of
        Inl e \<Rightarrow> (Inl e, s)
      | Inr counters \<Rightarrow>
     (if \<not> truthy counters then (Inl AssertionError, s) else
     (case py_getitem_idx counters counter_id of
        Inl e \<Rightarrow> (Inl e, s)
      | Inr counter \<Rightarrow>
     (case py_getitem_str counter (ATTR_UUID E) of
        Inl e \<Rightarrow> (Inl e, s)
      | Inr equipment_uuid \<Rightarrow>
     (if \<not> truthy equipment_uuid then (Inl AssertionError, s) else
     api_call R (SendReadings lspu_id equipment_uuid val els_id) s)))))))))))"

definition async_send_readings ::
  "env \<Rightarrow> remote \<Rightarrow> string \<Rightarrow> pyval \<Rightarrow> coordinator \<Rightarrow> outcome \<times> coordinator" where
  "async_send_readings E R device_id val s =
     (case find_account_by_device_id E s device_id of
        Inl e \<Rightarrow> (Inl e, s)
      | Inr device \<Rightarrow>
     (case fst device of
        None \<Rightarrow> (Inl AssertionError, s)
      | Some account_id \<Rightarrow>
     (case snd (snd device) of
        None \<Rightarrow> (Inl AssertionError, s)
      | Some counter_id \<Rightarrow>
     (case fst (snd device) of
        None \<Rightarrow> (Inl AssertionError, s)
      | Some lspu_account_id \<Rightarrow>
     send_readings_at E R val account_id lspu_account_id counter_id s))))"

section \<open>Example instances\<close>

text \<open>
  An instance of the parameters: key names, an update window from 1 to 5 o'clock,
  identifiers joined by an underscore, an interval counted from midnight, and string parsers
  that read plain decimal digit strings.
\<close>

fun parse_digits :: "string \<Rightarrow> nat \<Rightarrow> nat option" where
  "parse_digits [] acc = Some acc"
| "parse_digits (c # cs) acc =
     (if 48 \<le> (of_char c :: nat) \<and> (of_char c :: nat) \<le> 57
      then parse_digits cs (10 * acc + ((of_char c :: nat) - 48))
      else None)"

definition example_env :: env where
  "example_env =
     \<lparr>DOMAIN = ''mygas'', ATTR_ACCOUNT_ID = ''accountId'', ATTR_COUNTERS = ''counters'',
      ATTR_ELS = ''els'', ATTR_JNT_ACCOUNT_NUM = ''jntAccountNum'',
      ATTR_LSPU_INFO_GROUP = ''lspuInfoGroup'', ATTR_UUID = ''uuid'',
      CONF_ACCOUNT = ''account'', UPDATE_HOUR_BEGIN = 1, UPDATE_HOUR_END = 5,
      make_device_id =
        (\<lambda>a u. case a of
                  PStr x \<Rightarrow> (case u of PStr y \<Rightarrow> Inr (x @ ''_'' @ y) | _ \<Rightarrow> Inl TypeError)
                | _ \<Rightarrow> Inl TypeError),
      get_update_interval = (\<lambda>h m sec. ((h * 60 + m) * 60 + sec) * 1000000),
      int_of_str = (\<lambda>s. if s = [] then None else map_option int (parse_digits s 0)),
      float_of_str =
        (\<lambda>s. if s = [] then None else map_option (\<lambda>n. Fin (of_nat n)) (parse_digits s 0))\<rparr>"

text \<open>
  An ELS payload that also carries an LSPU key: three group items, of which the second has
  no id. The remote layer has details for id 5 only.
\<close>

definition example_els_accounts :: pyval where
  "example_els_accounts =
     PDict [(KStr ''elsGroup'',
               PList [PDict [(KStr ''els'', PDict [(KStr ''id'', PInt 5)])],
                      PDict [(KStr ''els'', PDict [])],
                      PDict [(KStr ''els'', PDict [(KStr ''id'', PInt 6)])]]),
            (KStr ''lspu'', PList [PDict [(KStr ''id'', PInt 9)]])]"

definition example_els_info :: pyval where
  "example_els_info =
     PDict [(KStr ''els'', PDict [(KStr ''jntAccountNum'', PStr ''100'')]),
            (KStr ''balance'', PFloat (Fin (- 25 / 2))),
            (KStr ''lspuInfoGroup'',
               PList [PDict [(KStr ''accountId'', PInt 77),
                             (KStr ''counters'', PList [PDict [(KStr ''uuid'', PStr ''u1'')]])]])]"

definition example_lspu_info :: pyval where
  "example_lspu_info =
     PDict [(KStr ''account'', PStr ''200''), (KStr ''accountId'', PInt 9),
            (KStr ''balance'', PInt 7),
            (KStr ''counters'', PList [PDict [(KStr ''uuid'', PStr ''u2'')]])]"

definition example_remote :: remote where
  "example_remote h c =
     (case c of
        GetAccounts \<Rightarrow> Inr example_els_accounts
      | GetElsInfo i \<Rightarrow> (if i = 5 then Inr example_els_info else Inr PNone)
      | GetLspuInfo i \<Rightarrow> Inr example_lspu_info
      | SendReadings a u v e \<Rightarrow> Inr (PList []))"

text \<open>A remote layer that has no data, and one that rejects the credentials on details.\<close>

definition empty_remote :: remote where
  "empty_remote h c = Inr (PDict [])"

definition auth_remote :: remote where
  "auth_remote h c =
     (case c of
        GetAccounts \<Rightarrow> Inr example_els_accounts
      | _ \<Rightarrow> Inl (MyGasAuthError ''401''))"

text \<open>The coordinator after \<^verbatim>\<open>__init__\<close> (lines 75-82), with auto-update on.\<close>

definition example_state :: coordinator where
  "example_state =
     \<lparr>data = empty_data, force_next_update = False, auto_update = True,
      update_interval = None,
      device_registry = (\<lambda>d. if d = ''dev1'' then Some {(''mygas'', ''100_u1'')} else None),
      api_log = []\<rparr>"

text \<open>The coordinator holding the result of an ELS poll.\<close>

definition example_els_state :: coordinator where
  "example_els_state =
     example_state\<lparr>data :=
       \<lparr>ATTR_LAST_UPDATE_TIME = Some 0, CONF_ACCOUNTS = Some example_els_accounts,
        ATTR_IS_ELS = Some True, CONF_INFO = Some [(5, example_els_info)],
        ATTR_BALANCE = Some (Fin (25 / 2))\<rparr>\<rparr>"

text \<open>The same, with a sub-account record that has no linked account id.\<close>

definition example_unlinked_state :: coordinator where
  "example_unlinked_state =
     example_state\<lparr>data :=
       \<lparr>ATTR_LAST_UPDATE_TIME = Some 0, CONF_ACCOUNTS = Some example_els_accounts,
        ATTR_IS_ELS = Some True,
        CONF_INFO = Some [(5,
          PDict [(KStr ''els'', PDict [(KStr ''jntAccountNum'', PStr ''100'')]),
                 (KStr ''lspuInfoGroup'',
                    PList [PDict [(KStr ''counters'',
                                     PList [PDict [(KStr ''uuid'', PStr ''u1'')]])]])])],
        ATTR_BALANCE = None\<rparr>\<rparr>"


section \<open>Properties: the remote history of a poll\<close>

text \<open>
  A remote call appends one entry to the history and changes nothing else. The detail
  fetchers and the body of a poll therefore only extend the history; an entry that records
  an exception is the last one, and that exception is what the fetcher or the body raises.
\<close>

lemma api_call_eq:
  "api_call R c s = (R (api_log s) c, s\<lparr>api_log := api_log s @ [(c, R (api_log s) c)]\<rparr>)"
  by (simp add: api_call_def Let_def)

lemma els_loop_frame:
  "els_loop E R xs acc s = (r, s') \<Longrightarrow>
     \<exists>new. s' = s\<lparr>api_log := api_log s @ new\<rparr>
        \<and> (\<forall>p\<in>set new. \<exists>i. fst p = GetElsInfo i)
        \<and> (\<forall>p\<in>set new. \<forall>e. snd p = Inl e \<longrightarrow> r = Inl e)"
proof (induction xs arbitrary: acc s)
  case Nil
  then show ?case by (auto intro: exI[of _ "[]"])
next
  case (Cons x xs)
  show ?case
  proof (cases "els_item_id x")
    case (Inl e)
    with Cons.prems show ?thesis by (auto intro!: exI[of _ "[]"])
  next
    case id: (Inr els_id)
    show ?thesis
    proof (cases "truthy els_id")
      case False
      with Cons.prems id have "els_loop E R xs acc s = (r, s')" by simp
      from Cons.IH[OF this] show ?thesis .
    next
      case True
      show ?thesis
      proof (cases "py_int E els_id")
        case (Inl e)
        with Cons.prems id True show ?thesis
          by (auto intro!: exI[of _ "[]"])
      next
        case i: (Inr i)
        let ?o = "R (api_log s) (GetElsInfo i)"
        let ?s1 = "s\<lparr>api_log := api_log s @ [(GetElsInfo i, ?o)]\<rparr>"
        show ?thesis
        proof (cases ?o)
          case (Inl e)
          with Cons.prems id True i have "r = Inl e" "s' = ?s1"
            by (auto simp: api_call_eq)
          with Inl show ?thesis
            by (intro exI[of _ "[(GetElsInfo i, ?o)]"]) auto
        next
          case (Inr v)
          with Cons.prems id True i
          have "els_loop E R xs (if truthy v then dict_set acc i v else acc) ?s1 = (r, s')"
            by (auto simp: api_call_eq)
          from Cons.IH[OF this] obtain new where
            n: "s' = ?s1\<lparr>api_log := api_log ?s1 @ new\<rparr>"
               "\<forall>p\<in>set new. \<exists>i. fst p = GetElsInfo i"
               "\<forall>p\<in>set new. \<forall>e. snd p = Inl e \<longrightarrow> r = Inl e" by blast
          from n(1) have "s' = s\<lparr>api_log := api_log s @ (GetElsInfo i, ?o) # new\<rparr>" by simp
          with n(2,3) Inr show ?thesis
            by (intro exI[of _ "(GetElsInfo i, ?o) # new"]) auto
        qed
      qed
    qed
  qed
qed

lemma lspu_loop_frame:
  "lspu_loop E R xs acc s = (r, s') \<Longrightarrow>
     \<exists>new. s' = s\<lparr>api_log := api_log s @ new\<rparr>
        \<and> (\<forall>p\<in>set new. \<exists>i. fst p = GetLspuInfo i)
        \<and> (\<forall>p\<in>set new. \<forall>e. snd p = Inl e \<longrightarrow> r = Inl e)"
proof (induction xs arbitrary: acc s)
  case Nil
  then show ?case by (auto intro: exI[of _ "[]"])
next
  case (Cons x xs)
  show ?case
  proof (cases "lspu_item_id x")
    case (Inl e)
    with Cons.prems show ?thesis by (auto intro!: exI[of _ "[]"])
  next
    case id: (Inr lspu_id)
    show ?thesis
    proof (cases "truthy lspu_id")
      case False
      with Cons.prems id have "lspu_loop E R xs acc s = (r, s')" by simp
      from Cons.IH[OF this] show ?thesis .
    next
      case True
      show ?thesis
      proof (cases "py_int E lspu_id")
        case (Inl e)
        with Cons.prems id True show ?thesis
          by (auto intro!: exI[of _ "[]"])
      next
        case i: (Inr i)
        let ?o = "R (api_log s) (GetLspuInfo i)"
        let ?s1 = "s\<lparr>api_log := api_log s @ [(GetLspuInfo i, ?o)]\<rparr>"
        show ?thesis
        proof (cases ?o)
          case (Inl e)
          with Cons.prems id True i have "r = Inl e" "s' = ?s1"
            by (auto simp: api_call_eq)
          with Inl show ?thesis
            by (intro exI[of _ "[(GetLspuInfo i, ?o)]"]) auto
        next
          case (Inr v)
          with Cons.prems id True i obtain acc' where
            "lspu_loop E R xs acc' ?s1 = (r, s')"
            by (auto simp: api_call_eq)
          from Cons.IH[OF this] obtain new where
            n: "s' = ?s1\<lparr>api_log := api_log ?s1 @ new\<rparr>"
               "\<forall>p\<in>set new. \<exists>i. fst p = GetLspuInfo i"
               "\<forall>p\<in>set new. \<forall>e. snd p = Inl e \<longrightarrow> r = Inl e" by blast
          from n(1) have "s' = s\<lparr>api_log := api_log s @ (GetLspuInfo i, ?o) # new\<rparr>" by simp
          with n(2,3) Inr show ?thesis
            by (intro exI[of _ "(GetLspuInfo i, ?o) # new"]) auto
        qed
      qed
    qed
  qed
qed

lemma retrieve_els_frame:
  "retrieve_els_accounts_info E R a s = (r, s') \<Longrightarrow>
     \<exists>new. s' = s\<lparr>api_log := api_log s @ new\<rparr>
        \<and> (\<forall>p\<in>set new. \<exists>i. fst p = GetElsInfo i)
        \<and> (\<forall>p\<in>set new. \<forall>e. snd p = Inl e \<longrightarrow> r = Inl e)"
  unfolding retrieve_els_accounts_info_def
  by (auto split: sum.splits dest: els_loop_frame intro: exI[of _ "[]"])

lemma retrieve_lspu_frame:
  "retrieve_lspu_accounts_info E R a s = (r, s') \<Longrightarrow>
     \<exists>new. s' = s\<lparr>api_log := api_log s @ new\<rparr>
        \<and> (\<forall>p\<in>set new. \<exists>i. fst p = GetLspuInfo i)
        \<and> (\<forall>p\<in>set new. \<forall>e. snd p = Inl e \<longrightarrow> r = Inl e)"
  unfolding retrieve_lspu_accounts_info_def
  by (rule lspu_loop_frame)


lemma update_fill_info_frame:
  assumes "update_fill_info E R nd a s = (r, s')"
  shows "\<exists>new. s' = s\<lparr>api_log := api_log s @ new\<rparr>
        \<and> (\<forall>p\<in>set new. (\<exists>i. fst p = GetElsInfo i) \<or> (\<exists>i. fst p = GetLspuInfo i))
        \<and> (\<forall>p\<in>set new. \<forall>e. snd p = Inl e \<longrightarrow> r = Inl e)"
proof -
  let ?g = "case a of PDict kv \<Rightarrow> dict_get kv ''elsGroup'' | _ \<Rightarrow> PNone"
  consider (els) "truthy ?g" | (lspu) "\<not> truthy ?g" "get_lspu_list a \<noteq> []"
    | (empty) "\<not> truthy ?g" "get_lspu_list a = []" by blast
  then show ?thesis
  proof cases
    case els
    obtain r1 s1 where r1: "retrieve_els_accounts_info E R a s = (r1, s1)" by force
    from retrieve_els_frame[OF r1] obtain new where
      n: "s1 = s\<lparr>api_log := api_log s @ new\<rparr>" "\<forall>p\<in>set new. \<exists>i. fst p = GetElsInfo i"
         "\<forall>p\<in>set new. \<forall>e. snd p = Inl e \<longrightarrow> r1 = Inl e" by blast
    from assms els r1 have "s' = s1" "\<forall>e. r1 = Inl e \<longrightarrow> r = Inl e"
      by (auto simp: update_fill_info_def Let_def split: sum.splits)
    with n show ?thesis by (intro exI[of _ new]) auto
  next
    case lspu
    obtain r1 s1 where r1: "retrieve_lspu_accounts_info E R a s = (r1, s1)" by force
    from retrieve_lspu_frame[OF r1] obtain new where
      n: "s1 = s\<lparr>api_log := api_log s @ new\<rparr>" "\<forall>p\<in>set new. \<exists>i. fst p = GetLspuInfo i"
         "\<forall>p\<in>set new. \<forall>e. snd p = Inl e \<longrightarrow> r1 = Inl e" by blast
    from assms lspu r1 have "s' = s1" "\<forall>e. r1 = Inl e \<longrightarrow> r = Inl e"
      by (auto simp: update_fill_info_def Let_def split: sum.splits)
    with n show ?thesis by (intro exI[of _ new]) auto
  next
    case empty
    with assms have "s' = s" by (auto simp: update_fill_info_def Let_def)
    then show ?thesis by (intro exI[of _ "[]"]) auto
  qed
qed

lemma update_try_frame:
  assumes "update_try E R now s = (r, s')"
  shows "\<exists>new. s' = s\<lparr>api_log := api_log s @ new\<rparr>
        \<and> (\<forall>p\<in>set new. \<forall>e. snd p = Inl e \<longrightarrow> r = Inl e)
        \<and> (if cached_accounts s = PNone \<or> force_next_update s
            then \<exists>rest. new = (GetAccounts, R (api_log s) GetAccounts) # rest
                   \<and> (\<forall>p\<in>set rest. fst p \<noteq> GetAccounts)
            else \<forall>p\<in>set new. fst p \<noteq> GetAccounts)"
proof (cases "cached_accounts s = PNone \<or> force_next_update s")
  case False
  then have f: "update_fetch_accounts R s = (Inr (Some (cached_accounts s)), s)"
    by (simp add: update_fetch_accounts_def)
  with assms have "update_fill_info E R (empty_data\<lparr>ATTR_LAST_UPDATE_TIME := Some now\<rparr>)
      (cached_accounts s) s = (r, s')"
    by (simp add: update_try_def)
  from update_fill_info_frame[OF this] obtain new where
    n: "s' = s\<lparr>api_log := api_log s @ new\<rparr>"
       "\<forall>p\<in>set new. (\<exists>i. fst p = GetElsInfo i) \<or> (\<exists>i. fst p = GetLspuInfo i)"
       "\<forall>p\<in>set new. \<forall>e. snd p = Inl e \<longrightarrow> r = Inl e" by blast
  from n(2) have "\<forall>p\<in>set new. fst p \<noteq> GetAccounts" by fastforce
  with n False show ?thesis by (intro exI[of _ new]) simp
next
  case True
  let ?o = "R (api_log s) GetAccounts"
  let ?p = "(GetAccounts, ?o)"
  let ?s1 = "s\<lparr>api_log := api_log s @ [?p]\<rparr>"
  show ?thesis
  proof (cases ?o)
    case (Inl e)
    with True assms have "r = Inl e" "s' = ?s1"
      by (auto simp: update_try_def update_fetch_accounts_def api_call_eq)
    with True Inl show ?thesis by (intro exI[of _ "[?p]"]) auto
  next
    case (Inr v)
    show ?thesis
    proof (cases "truthy v")
      case False
      with Inr True assms have "s' = ?s1"
        by (auto simp: update_try_def update_fetch_accounts_def api_call_eq)
      with True Inr show ?thesis by (intro exI[of _ "[?p]"]) auto
    next
      case tv: True
      with Inr True assms have "update_fill_info E R
          (empty_data\<lparr>ATTR_LAST_UPDATE_TIME := Some now\<rparr>) v ?s1 = (r, s')"
        by (auto simp: update_try_def update_fetch_accounts_def api_call_eq)
      from update_fill_info_frame[OF this] obtain new where
        n: "s' = ?s1\<lparr>api_log := api_log ?s1 @ new\<rparr>"
           "\<forall>p\<in>set new. (\<exists>i. fst p = GetElsInfo i) \<or> (\<exists>i. fst p = GetLspuInfo i)"
           "\<forall>p\<in>set new. \<forall>e. snd p = Inl e \<longrightarrow> r = Inl e" by blast
      from n(2) have na: "\<forall>p\<in>set new. fst p \<noteq> GetAccounts" by fastforce
      from n(1) have "s' = s\<lparr>api_log := api_log s @ ?p # new\<rparr>" by simp
      with n(3) na True Inr show ?thesis by (intro exI[of _ "?p # new"]) auto
    qed
  qed
qed

lemma update_finally_log:
  "api_log (snd (update_finally E r1 r2 r3 res s)) = api_log s"
  by (simp add: update_finally_def Let_def split: option.splits)

lemma update_finally_ok:
  assumes "auto_update s \<longrightarrow> UPDATE_HOUR_BEGIN E < UPDATE_HOUR_END E"
  shows "fst (update_finally E r1 r2 r3 res s) = res"
  using assms by (simp add: update_finally_def Let_def randrange_def split: option.splits)

lemma update_try_state:
  "\<exists>new. snd (update_try E R now s) = s\<lparr>api_log := api_log s @ new\<rparr>"
proof -
  obtain r s' where rs: "update_try E R now s = (r, s')" by force
  from update_try_frame[OF rs] rs show ?thesis by auto
qed

lemma store_balance_accounts:
  "store_balance E nd = Inr d \<Longrightarrow>
     CONF_ACCOUNTS d = CONF_ACCOUNTS nd \<and> ATTR_IS_ELS d = ATTR_IS_ELS nd
       \<and> CONF_INFO d = CONF_INFO nd \<and> ATTR_LAST_UPDATE_TIME d = ATTR_LAST_UPDATE_TIME nd"
  by (auto simp: store_balance_def split: sum.splits option.splits)

lemma update_fill_info_accounts:
  "update_fill_info E R nd a s = (Inr d, s') \<Longrightarrow> CONF_ACCOUNTS d = Some a"
  by (auto simp: update_fill_info_def Let_def split: if_splits sum.splits prod.splits
      dest!: store_balance_accounts)

lemma update_try_accounts:
  assumes "update_try E R now s = (Inr d, s')"
  shows "if cached_accounts s = PNone \<or> force_next_update s
         then (case R (api_log s) GetAccounts of
                 Inl e \<Rightarrow> False
               | Inr v \<Rightarrow> if truthy v then CONF_ACCOUNTS d = Some v
                          else d = empty_data\<lparr>ATTR_LAST_UPDATE_TIME := Some now\<rparr>)
         else CONF_ACCOUNTS d = Some (cached_accounts s)"
  using assms
  by (auto simp: update_try_def update_fetch_accounts_def api_call_eq
      split: if_splits sum.splits option.splits dest: update_fill_info_accounts)

lemma update_finally_state:
  "snd (update_finally E r1 r2 r3 res s) =
     (if auto_update s \<and> UPDATE_HOUR_BEGIN E < UPDATE_HOUR_END E
      then s\<lparr>force_next_update := False,
             update_interval := Some (get_update_interval E
               (UPDATE_HOUR_BEGIN E + int r1 mod (UPDATE_HOUR_END E - UPDATE_HOUR_BEGIN E))
               (int r2 mod 60) (int r3 mod 60))\<rparr>
      else if auto_update s then s\<lparr>force_next_update := False\<rparr>
      else s\<lparr>force_next_update := False, update_interval := None\<rparr>)"
  by (simp add: update_finally_def Let_def randrange_def)

lemma update_finally_success:
  "fst (update_finally E r1 r2 r3 res s) = Inr d \<Longrightarrow> res = Inr d"
  by (auto simp: update_finally_def Let_def split: if_splits option.splits)

lemma async_update_data_eq:
  "async_update_data E R now r1 r2 r3 s =
     update_finally E r1 r2 r3
       (case fst (update_try E R now s) of Inl e \<Rightarrow> Inl (map_exception e) | Inr d \<Rightarrow> Inr d)
       (snd (update_try E R now s))"
  by (simp add: async_update_data_def split: prod.splits sum.splits)

lemma async_update_data_log:
  "api_log (snd (async_update_data E R now r1 r2 r3 s)) = api_log (snd (update_try E R now s))"
  by (simp add: async_update_data_eq update_finally_log)

lemma async_update_data_success:
  "fst (async_update_data E R now r1 r2 r3 s) = Inr d \<Longrightarrow>
     \<exists>s'. update_try E R now s = (Inr d, s')"
  by (auto simp: async_update_data_def split: prod.splits sum.splits
      dest: update_finally_success)

lemma truthy_els_group_nonempty:
  "truthy (dict_get kv ''elsGroup'') \<Longrightarrow> truthy (PDict kv)"
  by (cases kv) (simp_all add: dict_get_def)

lemma update_try_els:
  assumes payload:
      "(if cached_accounts s = PNone \<or> force_next_update s
        then R (api_log s) GetAccounts else Inr (cached_accounts s)) = Inr (PDict kv)"
    and els: "truthy (dict_get kv ''elsGroup'')"
  shows "update_try E R now s =
     (case retrieve_els_accounts_info E R (PDict kv)
             (if cached_accounts s = PNone \<or> force_next_update s
              then s\<lparr>api_log := api_log s @ [(GetAccounts, Inr (PDict kv))]\<rparr> else s) of
        (Inl e, s2) \<Rightarrow> (Inl e, s2)
      | (Inr i, s2) \<Rightarrow>
          (case store_balance E
                  \<lparr>ATTR_LAST_UPDATE_TIME = Some now, CONF_ACCOUNTS = Some (PDict kv),
                   ATTR_IS_ELS = Some True, CONF_INFO = Some i, ATTR_BALANCE = None\<rparr> of
             Inl e \<Rightarrow> (Inl e, s2)
           | Inr d \<Rightarrow> (Inr d, s2)))"
proof -
  from els have t: "truthy (PDict kv)" by (rule truthy_els_group_nonempty)
  show ?thesis
  proof (cases "cached_accounts s = PNone \<or> force_next_update s")
    case True
    with payload have "R (api_log s) GetAccounts = Inr (PDict kv)" by simp
    with True t els show ?thesis
      by (simp add: update_try_def update_fetch_accounts_def api_call_eq update_fill_info_def
          empty_data_def Let_def del: truthy.simps split: prod.split sum.split)
  next
    case False
    with payload have "cached_accounts s = PDict kv" by simp
    with False els show ?thesis
      by (simp add: update_try_def update_fetch_accounts_def update_fill_info_def
          empty_data_def Let_def del: truthy.simps split: prod.split sum.split)
  qed
qed

section \<open>Properties of the refresh orchestrator\<close>


text \<open>Runs of the model on the example instances.\<close>

lemmas example_defs =
  example_env_def example_els_accounts_def example_els_info_def example_lspu_info_def
  example_remote_def empty_remote_def auth_remote_def example_state_def
  example_els_state_def example_unlinked_state_def empty_data_def

lemmas python_defs =
  py_get_def py_getitem_str_def py_getitem_idx_def py_len_def py_iter_def py_or_def
  py_int_def py_float_def py_abs_def dict_get_def key_value_def els_item_id_def
  lspu_item_id_def

lemmas update_defs =
  async_update_data_def update_try_def update_fetch_accounts_def cached_accounts_def
  update_fill_info_def retrieve_els_accounts_info_def retrieve_lspu_accounts_info_def Let_def
  store_balance_def extract_balance_from_info_def info_value_def balance_of_mapping_def
  update_finally_def randrange_def map_exception_def get_lspu_list_def

lemma example_poll:
  "async_update_data example_env example_remote 0 0 0 0 example_state =
     (Inr \<lparr>ATTR_LAST_UPDATE_TIME = Some 0, CONF_ACCOUNTS = Some example_els_accounts,
           ATTR_IS_ELS = Some True, CONF_INFO = Some [(5, example_els_info)],
           ATTR_BALANCE = Some (Fin (25 / 2))\<rparr>,
      example_state\<lparr>api_log := [(GetAccounts, Inr example_els_accounts),
                                 (GetElsInfo 5, Inr example_els_info),
                                 (GetElsInfo 6, Inr PNone)],
                    update_interval := Some 3600000000\<rparr>)"
  by (simp add: update_defs example_defs python_defs api_call_eq)

lemma example_poll_auth:
  "async_update_data example_env auth_remote 0 0 0 0 example_state =
     (Inl (ConfigEntryAuthFailed ''Incorrect Login or Password''),
      example_state\<lparr>api_log := [(GetAccounts, Inr example_els_accounts),
                                 (GetElsInfo 5, Inl (MyGasAuthError ''401''))],
                    update_interval := Some 3600000000\<rparr>)"
  by (simp add: update_defs example_defs python_defs api_call_eq)

lemma example_poll_forced:
  "async_update_data example_env example_remote 0 0 0 0
       (example_els_state\<lparr>force_next_update := True\<rparr>) =
     (Inr \<lparr>ATTR_LAST_UPDATE_TIME = Some 0, CONF_ACCOUNTS = Some example_els_accounts,
           ATTR_IS_ELS = Some True, CONF_INFO = Some [(5, example_els_info)],
           ATTR_BALANCE = Some (Fin (25 / 2))\<rparr>,
      example_els_state\<lparr>api_log := [(GetAccounts, Inr example_els_accounts),
                                     (GetElsInfo 5, Inr example_els_info),
                                     (GetElsInfo 6, Inr PNone)],
                        update_interval := Some 3600000000\<rparr>)"
  by (simp add: update_defs example_defs python_defs api_call_eq)




text \<open>
  C2. An exception that a remote call of the poll raised, at whatever stage, decides the
  poll's outcome: the authentication error gives the auth-failed condition, any other
  exception the update-failed condition built from it. The same holds for an exception that
  the poll's own statements raise. (The \<^verbatim>\<open>finally\<close> block is assumed not to raise: the
  update window is not empty when auto-update is on.)
\<close>

theorem poll_failure_mapping:
  assumes win: "auto_update s \<longrightarrow> UPDATE_HOUR_BEGIN E < UPDATE_HOUR_END E"
  shows
    "(\<forall>c m. (c, Inl (MyGasAuthError m))
               \<in> set (drop (length (api_log s))
                      (api_log (snd (async_update_data E R now r1 r2 r3 s))))
         \<longrightarrow> fst (async_update_data E R now r1 r2 r3 s) =
               Inl (ConfigEntryAuthFailed ''Incorrect Login or Password''))
     \<and> (\<forall>c e. (c, Inl e)
               \<in> set (drop (length (api_log s))
                      (api_log (snd (async_update_data E R now r1 r2 r3 s))))
             \<and> (\<forall>m. e \<noteq> MyGasAuthError m)
         \<longrightarrow> fst (async_update_data E R now r1 r2 r3 s) = Inl (UpdateFailed e))
     \<and> (\<forall>m. fst (update_try E R now s) = Inl (MyGasAuthError m)
         \<longrightarrow> fst (async_update_data E R now r1 r2 r3 s) =
               Inl (ConfigEntryAuthFailed ''Incorrect Login or Password''))
     \<and> (\<forall>e. fst (update_try E R now s) = Inl e \<and> (\<forall>m. e \<noteq> MyGasAuthError m)
         \<longrightarrow> fst (async_update_data E R now r1 r2 r3 s) = Inl (UpdateFailed e))"
proof -
  let ?P = "async_update_data E R now r1 r2 r3 s"
  obtain r s' where rs: "update_try E R now s = (r, s')" by force
  from update_try_frame[OF rs] obtain new where
    n: "s' = s\<lparr>api_log := api_log s @ new\<rparr>"
       "\<forall>p\<in>set new. \<forall>e. snd p = Inl e \<longrightarrow> r = Inl e" by blast
  from rs n(1) have log: "drop (length (api_log s)) (api_log (snd ?P)) = new"
    by (simp add: async_update_data_log)
  from n(1) win have "auto_update s' \<longrightarrow> UPDATE_HOUR_BEGIN E < UPDATE_HOUR_END E" by simp
  with rs have res: "fst ?P = (case r of Inl e \<Rightarrow> Inl (map_exception e) | Inr d \<Rightarrow> Inr d)"
    by (simp add: async_update_data_eq update_finally_ok)
  have raised: "r = Inl e" if "(c, Inl e) \<in> set new" for c e
    using n(2) that by force
  have auth: "fst ?P = Inl (ConfigEntryAuthFailed ''Incorrect Login or Password'')"
    if "r = Inl (MyGasAuthError m)" for m
    using that res by (simp add: map_exception_def)
  have other: "fst ?P = Inl (UpdateFailed e)" if "r = Inl e" "\<forall>m. e \<noteq> MyGasAuthError m" for e
    using that res by (cases e) (simp_all add: map_exception_def)
  from rs have r: "fst (update_try E R now s) = r" by simp
  show ?thesis
    unfolding log r using raised auth other by blast
qed

theorem poll_failure_mapping_witness:
  "UPDATE_HOUR_BEGIN example_env < UPDATE_HOUR_END example_env
   \<and> (GetElsInfo 5, Inl (MyGasAuthError ''401''))
       \<in> set (drop (length (api_log example_state))
              (api_log (snd (async_update_data example_env auth_remote 0 0 0 0 example_state))))
   \<and> fst (async_update_data example_env auth_remote 0 0 0 0 example_state) =
       Inl (ConfigEntryAuthFailed ''Incorrect Login or Password'')"
proof -
  have h: "UPDATE_HOUR_BEGIN example_env < UPDATE_HOUR_END example_env"
    by (simp add: example_defs)
  have m: "(GetElsInfo 5, Inl (MyGasAuthError ''401''))
       \<in> set (drop (length (api_log example_state))
              (api_log (snd (async_update_data example_env auth_remote 0 0 0 0 example_state))))"
    by (simp add: example_poll_auth) (simp add: example_state_def)
  from h have "auto_update example_state \<longrightarrow>
      UPDATE_HOUR_BEGIN example_env < UPDATE_HOUR_END example_env" by simp
  from poll_failure_mapping[OF this, of auth_remote 0 0 0 0] m
  have "fst (async_update_data example_env auth_remote 0 0 0 0 example_state) =
       Inl (ConfigEntryAuthFailed ''Incorrect Login or Password'')"
    by blast
  with h m show ?thesis by blast
qed

text \<open>
  C3. When the accounts payload a poll works on, fetched or cached, is a mapping with a
  truthy \<^verbatim>\<open>elsGroup\<close>, the poll takes the ELS branch whatever else the payload holds: it
  issues no get-LSPU-info call, and a result it returns has \<^verbatim>\<open>is_els\<close> true and, as details,
  what the ELS fetcher returned for that payload.
\<close>

theorem els_takes_priority:
  assumes payload:
      "(if cached_accounts s = PNone \<or> force_next_update s
        then R (api_log s) GetAccounts else Inr (cached_accounts s)) = Inr (PDict kv)"
    and els: "truthy (dict_get kv ''elsGroup'')"
  shows
    "(\<forall>p\<in>set (drop (length (api_log s))
                 (api_log (snd (async_update_data E R now r1 r2 r3 s)))).
         \<forall>i. fst p \<noteq> GetLspuInfo i)
     \<and> (\<forall>d. fst (async_update_data E R now r1 r2 r3 s) = Inr d \<longrightarrow>
           ATTR_IS_ELS d = Some True
           \<and> (\<exists>i s2. retrieve_els_accounts_info E R (PDict kv)
                        (if cached_accounts s = PNone \<or> force_next_update s
                         then s\<lparr>api_log := api_log s @ [(GetAccounts, Inr (PDict kv))]\<rparr>
                         else s) = (Inr i, s2)
                    \<and> CONF_INFO d = Some i))"
proof -
  let ?P = "async_update_data E R now r1 r2 r3 s"
  let ?s1 = "if cached_accounts s = PNone \<or> force_next_update s
             then s\<lparr>api_log := api_log s @ [(GetAccounts, Inr (PDict kv))]\<rparr> else s"
  note body = update_try_els[where s=s and R=R and kv=kv and E=E and now=now, OF payload els]
  obtain r1' s2 where ret: "retrieve_els_accounts_info E R (PDict kv) ?s1 = (r1', s2)" by force
  from retrieve_els_frame[OF ret] obtain new where
    n: "s2 = ?s1\<lparr>api_log := api_log ?s1 @ new\<rparr>" "\<forall>p\<in>set new. \<exists>i. fst p = GetElsInfo i"
    by blast
  from body ret have "snd (update_try E R now s) = s2"
    by (simp split: sum.splits)
  with n(1) have "drop (length (api_log s)) (api_log (snd ?P)) =
      (if cached_accounts s = PNone \<or> force_next_update s
       then (GetAccounts, Inr (PDict kv)) # new else new)"
    by (simp add: async_update_data_log)
  with n(2) have calls: "\<forall>p\<in>set (drop (length (api_log s)) (api_log (snd ?P))).
      \<forall>i. fst p \<noteq> GetLspuInfo i"
    by auto
  have succ: "ATTR_IS_ELS d = Some True
      \<and> (\<exists>i s2. retrieve_els_accounts_info E R (PDict kv) ?s1 = (Inr i, s2) \<and> CONF_INFO d = Some i)"
    if "fst ?P = Inr d" for d
  proof -
    from that obtain s3 where "update_try E R now s = (Inr d, s3)"
      by (blast dest: async_update_data_success)
    with body ret show ?thesis
      by (auto split: sum.splits dest!: store_balance_accounts)
  qed
  from calls succ show ?thesis by blast
qed

theorem els_takes_priority_witness:
  "(if cached_accounts example_state = PNone \<or> force_next_update example_state
    then example_remote (api_log example_state) GetAccounts
    else Inr (cached_accounts example_state)) = Inr example_els_accounts
   \<and> truthy (dict_get [(KStr ''elsGroup'',
               PList [PDict [(KStr ''els'', PDict [(KStr ''id'', PInt 5)])],
                      PDict [(KStr ''els'', PDict [])],
                      PDict [(KStr ''els'', PDict [(KStr ''id'', PInt 6)])]]),
            (KStr ''lspu'', PList [PDict [(KStr ''id'', PInt 9)]])] ''elsGroup'')
   \<and> get_lspu_list example_els_accounts = [PDict [(KStr ''id'', PInt 9)]]
   \<and> (\<exists>d. fst (async_update_data example_env example_remote 0 0 0 0 example_state) = Inr d
          \<and> ATTR_IS_ELS d = Some True \<and> CONF_INFO d = Some [(5, example_els_info)])"
proof -
  let ?kv = "[(KStr ''elsGroup'',
               PList [PDict [(KStr ''els'', PDict [(KStr ''id'', PInt 5)])],
                      PDict [(KStr ''els'', PDict [])],
                      PDict [(KStr ''els'', PDict [(KStr ''id'', PInt 6)])]]),
            (KStr ''lspu'', PList [PDict [(KStr ''id'', PInt 9)]])]"
  have a: "example_els_accounts = PDict ?kv" by (simp add: example_els_accounts_def)
  have h1: "(if cached_accounts example_state = PNone \<or> force_next_update example_state
    then example_remote (api_log example_state) GetAccounts
    else Inr (cached_accounts example_state)) = Inr (PDict ?kv)"
    by (simp add: cached_accounts_def example_defs)
  have h2: "truthy (dict_get ?kv ''elsGroup'')" by (simp add: dict_get_def)
  have h3: "get_lspu_list example_els_accounts = [PDict [(KStr ''id'', PInt 9)]]"
    by (simp add: get_lspu_list_def example_els_accounts_def python_defs)
  obtain d where d: "fst (async_update_data example_env example_remote 0 0 0 0 example_state) = Inr d"
      "CONF_INFO d = Some [(5, example_els_info)]"
    by (simp add: example_poll)
  from els_takes_priority[where s=example_state and R=example_remote and kv="?kv"
      and E=example_env and now=0 and ?r1.0=0 and ?r2.0=0 and ?r3.0=0, OF h1 h2] d(1)
  have "ATTR_IS_ELS d = Some True" by blast
  with h1 h2 h3 d a show ?thesis by metis
qed

text \<open>
  C6. The forced-refresh flag is false after every poll, whatever its outcome. When it was
  set, the poll's first remote call is get-accounts, and a result built from truthy fetched
  data holds that data, not the cache.
\<close>

theorem force_flag_one_shot:
  "\<not> force_next_update (snd (async_update_data E R now r1 r2 r3 s))
   \<and> (force_next_update s \<longrightarrow>
        (\<exists>rest. api_log (snd (async_update_data E R now r1 r2 r3 s)) =
                  api_log s @ (GetAccounts, R (api_log s) GetAccounts) # rest)
        \<and> (\<forall>v d. R (api_log s) GetAccounts = Inr v \<and> truthy v
                  \<and> fst (async_update_data E R now r1 r2 r3 s) = Inr d
               \<longrightarrow> CONF_ACCOUNTS d = Some v))"
proof -
  let ?P = "async_update_data E R now r1 r2 r3 s"
  have cleared: "\<not> force_next_update (snd ?P)"
    by (simp add: async_update_data_eq update_finally_state)
  obtain r s' where rs: "update_try E R now s = (r, s')" by force
  from update_try_frame[OF rs] obtain new where
    n: "s' = s\<lparr>api_log := api_log s @ new\<rparr>"
       "if cached_accounts s = PNone \<or> force_next_update s
        then \<exists>rest. new = (GetAccounts, R (api_log s) GetAccounts) # rest
               \<and> (\<forall>p\<in>set rest. fst p \<noteq> GetAccounts)
        else \<forall>p\<in>set new. fst p \<noteq> GetAccounts" by blast
  from rs n(1) have log: "api_log (snd ?P) = api_log s @ new"
    by (simp add: async_update_data_log)
  have fetch: "\<exists>rest. api_log (snd ?P) = api_log s @ (GetAccounts, R (api_log s) GetAccounts) # rest"
    if "force_next_update s"
    using that n(2) log by auto
  have fresh: "CONF_ACCOUNTS d = Some v"
    if "force_next_update s" "R (api_log s) GetAccounts = Inr v \<and> truthy v \<and> fst ?P = Inr d"
    for v d
  proof -
    from that obtain s2 where "update_try E R now s = (Inr d, s2)"
      by (blast dest: async_update_data_success)
    from update_try_accounts[OF this] that show ?thesis by simp
  qed
  from cleared fetch fresh show ?thesis by blast
qed

theorem force_flag_one_shot_witness:
  "force_next_update (example_els_state\<lparr>force_next_update := True\<rparr>)
   \<and> cached_accounts (example_els_state\<lparr>force_next_update := True\<rparr>) = example_els_accounts
   \<and> \<not> force_next_update (snd (async_update_data example_env example_remote 0 0 0 0
         (example_els_state\<lparr>force_next_update := True\<rparr>)))
   \<and> (\<exists>rest. api_log (snd (async_update_data example_env example_remote 0 0 0 0
         (example_els_state\<lparr>force_next_update := True\<rparr>))) =
        (GetAccounts, Inr example_els_accounts) # rest)"
proof -
  let ?s = "example_els_state\<lparr>force_next_update := True\<rparr>"
  have h: "force_next_update ?s" by simp
  have c: "cached_accounts ?s = example_els_accounts"
    by (simp add: cached_accounts_def example_els_state_def)
  have l: "api_log ?s = []" by (simp add: example_els_state_def example_state_def)
  have r: "example_remote [] GetAccounts = Inr example_els_accounts"
    by (simp add: example_remote_def)
  from force_flag_one_shot[of example_env example_remote 0 0 0 0 ?s] h l r
  have "\<not> force_next_update (snd (async_update_data example_env example_remote 0 0 0 0 ?s))"
    "\<exists>rest. api_log (snd (async_update_data example_env example_remote 0 0 0 0 ?s)) =
        (GetAccounts, Inr example_els_accounts) # rest"
    by simp_all
  with h c show ?thesis by blast
qed

text \<open>
  C8. At the end of every poll, so in particular of every successful one: with auto-update
  on (and a non-empty window), the next interval is \<^verbatim>\<open>get_update_interval\<close> of an hour in
  \<open>[UPDATE_HOUR_BEGIN, UPDATE_HOUR_END)\<close>, a minute in \<open>[0, 60)\<close> and a second in \<open>[0, 60)\<close>,
  and every such time of day is reached by some draws; with auto-update off the interval is
  set to none.
\<close>

theorem next_interval_randomized:
  "(auto_update s \<and> UPDATE_HOUR_BEGIN E < UPDATE_HOUR_END E \<longrightarrow>
      (\<exists>h m sec. UPDATE_HOUR_BEGIN E \<le> h \<and> h < UPDATE_HOUR_END E
          \<and> 0 \<le> m \<and> m < 60 \<and> 0 \<le> sec \<and> sec < 60
          \<and> update_interval (snd (async_update_data E R now r1 r2 r3 s)) =
              Some (get_update_interval E h m sec)))
   \<and> (auto_update s \<longrightarrow>
      (\<forall>h m sec. UPDATE_HOUR_BEGIN E \<le> h \<and> h < UPDATE_HOUR_END E
          \<and> 0 \<le> m \<and> m < 60 \<and> 0 \<le> sec \<and> sec < 60 \<longrightarrow>
          (\<exists>q1 q2 q3. update_interval (snd (async_update_data E R now q1 q2 q3 s)) =
              Some (get_update_interval E h m sec))))
   \<and> (\<not> auto_update s \<longrightarrow>
        update_interval (snd (async_update_data E R now r1 r2 r3 s)) = None)"
proof -
  obtain new where s': "snd (update_try E R now s) = s\<lparr>api_log := api_log s @ new\<rparr>"
    using update_try_state by blast
  have st: "snd (async_update_data E R now q1 q2 q3 s) =
      snd (update_finally E q1 q2 q3 res (s\<lparr>api_log := api_log s @ new\<rparr>))"
    if "res = (case fst (update_try E R now s) of
                 Inl e \<Rightarrow> Inl (map_exception e) | Inr d \<Rightarrow> Inr d)" for q1 q2 q3 res
    using that s' by (simp add: async_update_data_eq)
  have on: "\<exists>h m sec. UPDATE_HOUR_BEGIN E \<le> h \<and> h < UPDATE_HOUR_END E
          \<and> 0 \<le> m \<and> m < 60 \<and> 0 \<le> sec \<and> sec < 60
          \<and> update_interval (snd (async_update_data E R now r1 r2 r3 s)) =
              Some (get_update_interval E h m sec)"
    if a: "auto_update s" and w: "UPDATE_HOUR_BEGIN E < UPDATE_HOUR_END E"
  proof -
    let ?h = "UPDATE_HOUR_BEGIN E + int r1 mod (UPDATE_HOUR_END E - UPDATE_HOUR_BEGIN E)"
    from w have "0 \<le> int r1 mod (UPDATE_HOUR_END E - UPDATE_HOUR_BEGIN E)"
      "int r1 mod (UPDATE_HOUR_END E - UPDATE_HOUR_BEGIN E)
         < UPDATE_HOUR_END E - UPDATE_HOUR_BEGIN E"
      by simp_all
    then have "UPDATE_HOUR_BEGIN E \<le> ?h" "?h < UPDATE_HOUR_END E"
      by linarith+
    moreover have "0 \<le> int r2 mod 60" "int r2 mod 60 < 60" "0 \<le> int r3 mod 60" "int r3 mod 60 < 60"
      by simp_all
    moreover from a w have "update_interval (snd (async_update_data E R now r1 r2 r3 s)) =
        Some (get_update_interval E ?h (int r2 mod 60) (int r3 mod 60))"
      by (simp add: st update_finally_state)
    ultimately show ?thesis by blast
  qed
  have onto: "\<exists>q1 q2 q3. update_interval (snd (async_update_data E R now q1 q2 q3 s)) =
              Some (get_update_interval E h m sec)"
    if a: "auto_update s"
      and b: "UPDATE_HOUR_BEGIN E \<le> h \<and> h < UPDATE_HOUR_END E
          \<and> 0 \<le> m \<and> m < 60 \<and> 0 \<le> sec \<and> sec < 60" for h m sec
  proof -
    from b have w: "UPDATE_HOUR_BEGIN E < UPDATE_HOUR_END E" by simp
    from b have "UPDATE_HOUR_BEGIN E + int (nat (h - UPDATE_HOUR_BEGIN E))
        mod (UPDATE_HOUR_END E - UPDATE_HOUR_BEGIN E) = h"
      "int (nat m) mod 60 = m" "int (nat sec) mod 60 = sec"
      by simp_all
    with a w have "update_interval (snd (async_update_data E R now
        (nat (h - UPDATE_HOUR_BEGIN E)) (nat m) (nat sec) s)) =
        Some (get_update_interval E h m sec)"
      by (simp add: st update_finally_state)
    then show ?thesis by blast
  qed
  have off: "update_interval (snd (async_update_data E R now r1 r2 r3 s)) = None"
    if "\<not> auto_update s"
    using that by (simp add: st update_finally_state)
  from on onto off show ?thesis by blast
qed

theorem next_interval_randomized_witness:
  "auto_update example_state
   \<and> UPDATE_HOUR_BEGIN example_env < UPDATE_HOUR_END example_env
   \<and> (\<exists>h m sec. 1 \<le> h \<and> h < 5 \<and> 0 \<le> m \<and> m < 60 \<and> 0 \<le> sec \<and> sec < 60
        \<and> update_interval (snd (async_update_data example_env example_remote 0 6 61 125
              example_state)) = Some (((h * 60 + m) * 60 + sec) * 1000000))
   \<and> update_interval (snd (async_update_data example_env example_remote 0 6 61 125
        (example_state\<lparr>auto_update := False\<rparr>))) = None"
proof -
  have a: "auto_update example_state" by (simp add: example_state_def)
  have w: "UPDATE_HOUR_BEGIN example_env < UPDATE_HOUR_END example_env"
    by (simp add: example_env_def)
  have b: "UPDATE_HOUR_BEGIN example_env = 1" "UPDATE_HOUR_END example_env = 5"
    "get_update_interval example_env = (\<lambda>h m sec. ((h * 60 + m) * 60 + sec) * 1000000)"
    by (simp_all add: example_env_def)
  from next_interval_randomized[of example_state example_env example_remote 0 6 61 125] a w
  have "\<exists>h m sec. UPDATE_HOUR_BEGIN example_env \<le> h \<and> h < UPDATE_HOUR_END example_env
          \<and> 0 \<le> m \<and> m < 60 \<and> 0 \<le> sec \<and> sec < 60
          \<and> update_interval (snd (async_update_data example_env example_remote 0 6 61 125
              example_state)) = Some (get_update_interval example_env h m sec)"
    by blast
  then have on: "\<exists>h m sec. 1 \<le> h \<and> h < 5 \<and> 0 \<le> m \<and> m < 60 \<and> 0 \<le> sec \<and> sec < 60
        \<and> update_interval (snd (async_update_data example_env example_remote 0 6 61 125
              example_state)) = Some (((h * 60 + m) * 60 + sec) * 1000000)"
    unfolding b .
  from next_interval_randomized[of "example_state\<lparr>auto_update := False\<rparr>"
      example_env example_remote 0 6 61 125]
  have off: "update_interval (snd (async_update_data example_env example_remote 0 6 61 125
        (example_state\<lparr>auto_update := False\<rparr>))) = None"
    by simp
  from a w on off show ?thesis by blast
qed

section \<open>Properties of the LSPU list and of the balance extractor\<close>

text \<open>
  C4, as stated: the first of the three keys whose value is present and not null wins. The
  code differs on a payload whose \<^verbatim>\<open>lspu\<close> is an empty list and whose \<^verbatim>\<open>lspuGroup\<close> holds an
  account: the stated rule resolves to the empty list of \<^verbatim>\<open>lspu\<close>, the code goes on to
  \<^verbatim>\<open>lspuGroup\<close>.
\<close>

theorem lspu_first_present_counterexample:
  "get_lspu_list
     (PDict [(KStr ''lspu'', PList []),
             (KStr ''lspuGroup'', PList [PDict [(KStr ''id'', PInt 9)]])])
     = [PDict [(KStr ''id'', PInt 9)]]
   \<and> spec_lspu_list
     (PDict [(KStr ''lspu'', PList []),
             (KStr ''lspuGroup'', PList [PDict [(KStr ''id'', PInt 9)]])])
     = []"
  by (simp add: get_lspu_list_def spec_lspu_list_def dict_get_def py_or_def)

text \<open>
  C4, amended: the keys \<^verbatim>\<open>lspu\<close>, \<^verbatim>\<open>lspuGroup\<close>, \<^verbatim>\<open>lspuInfoGroup\<close> are inspected in that order
  and the first truthy value wins; a resolved value that is not a list, and an input that is
  not a mapping, give the empty list. The function is total: it raises nothing.
\<close>

theorem lspu_list_first_truthy:
  "get_lspu_list accounts_info =
     (case accounts_info of
        PDict kv \<Rightarrow>
          (case first_truthy
                  [dict_get kv ''lspu'', dict_get kv ''lspuGroup'', dict_get kv ''lspuInfoGroup'']
           of PList xs \<Rightarrow> xs | _ \<Rightarrow> [])
      | _ \<Rightarrow> [])"
  by (simp add: get_lspu_list_def py_or_def split: pyval.splits)

theorem lspu_list_first_truthy_witness:
  "get_lspu_list
     (PDict [(KStr ''lspu'', PList []),
             (KStr ''lspuGroup'', PList [PDict [(KStr ''id'', PInt 9)]])])
     = [PDict [(KStr ''id'', PInt 9)]]
   \<and> get_lspu_list (PDict [(KStr ''lspu'', PStr ''x'')]) = []
   \<and> get_lspu_list (PList [PDict [(KStr ''id'', PInt 9)]]) = []"
  using lspu_list_first_truthy[of "PDict [(KStr ''lspu'', PList []),
             (KStr ''lspuGroup'', PList [PDict [(KStr ''id'', PInt 9)]])]"]
    lspu_list_first_truthy[of "PDict [(KStr ''lspu'', PStr ''x'')]"]
    lspu_list_first_truthy[of "PList [PDict [(KStr ''id'', PInt 9)]]"]
  by (simp add: dict_get_def)

text \<open>
  Where no candidate value is falsy without being null, the stated rule and the code agree.
\<close>

lemma lspu_list_agrees_with_spec:
  assumes "\<forall>v\<in>set [dict_get kv ''lspu'', dict_get kv ''lspuGroup'', dict_get kv ''lspuInfoGroup''].
             v = PNone \<or> truthy v"
  shows "get_lspu_list (PDict kv) = spec_lspu_list (PDict kv)"
  using assms
  by (auto simp: get_lspu_list_def spec_lspu_list_def py_or_def)

text \<open>
  \<^verbatim>\<open>float(n)\<close> is exact below \<open>2 ^ 53\<close> and raises \<^verbatim>\<open>OverflowError\<close> from \<open>2 ^ 1024\<close> on.
\<close>

lemma bit_length_bounds:
  "0 < n \<Longrightarrow> 2 ^ (bit_length n - 1) \<le> n \<and> n < 2 ^ bit_length n"
proof (induction n rule: bit_length.induct)
  case (1 n)
  show ?case
  proof (cases "n div 2 = 0")
    case True
    with "1.prems" have "n = 1" by presburger
    then show ?thesis by simp
  next
    case False
    then have pos: "0 < n div 2" by simp
    from "1.prems" have n0: "n \<noteq> 0" by simp
    from "1.IH"[OF n0 pos] have
      ih: "2 ^ (bit_length (n div 2) - 1) \<le> n div 2" "n div 2 < 2 ^ bit_length (n div 2)"
      by simp_all
    from pos have bl: "0 < bit_length (n div 2)" by (subst bit_length.simps) simp
    have eq: "bit_length n = Suc (bit_length (n div 2))"
      using n0 by (subst bit_length.simps) simp
    from bl obtain k where k: "bit_length (n div 2) = Suc k" by (cases "bit_length (n div 2)") auto
    have dbl: "2 * a \<le> n" if "a \<le> n div 2" for a :: nat using that by arith
    have hlf: "n < 2 * a" if "n div 2 < a" for a :: nat using that by arith
    from ih(1) k have "2 * 2 ^ k \<le> n" by (intro dbl) simp
    moreover from ih(2) k have "n < 2 * 2 ^ Suc k" by (intro hlf) simp
    ultimately show ?thesis unfolding eq k by simp
  qed
qed

lemma round_up_or_keep:
  fixes m q e :: nat
  shows "q * 2 ^ e \<le> (if 2 ^ (e - 1) < m mod 2 ^ e \<or> (m mod 2 ^ e = 2 ^ (e - 1) \<and> odd q)
                     then q + 1 else q) * 2 ^ e"
  by (rule mult_le_mono1) simp

lemma round_significand_big:
  assumes "\<not> m < 2 ^ 53"
  shows "round_significand m =
     (if 2 ^ (bit_length m - 53 - 1) < m mod 2 ^ (bit_length m - 53)
         \<or> (m mod 2 ^ (bit_length m - 53) = 2 ^ (bit_length m - 53 - 1)
            \<and> odd (m div 2 ^ (bit_length m - 53)))
      then m div 2 ^ (bit_length m - 53) + 1
      else m div 2 ^ (bit_length m - 53)) * 2 ^ (bit_length m - 53)"
  unfolding round_significand_def Let_def using assms by (rule if_not_P)

lemma round_significand_large:
  assumes "2 ^ 1024 \<le> m"
  shows "2 ^ 1024 \<le> round_significand m"
proof -
  define b where "b = bit_length m"
  define e where "e = b - 53"
  define q where "q = m div 2 ^ e"
  have p53: "(2::nat) ^ 53 \<le> 2 ^ 1024" by (rule power_increasing) simp_all
  have "(0::nat) < 2 ^ 1024" by (rule zero_less_power) simp
  from this assms have m0: "0 < m" by (rule less_le_trans)
  from bit_length_bounds[OF m0] have lo: "2 ^ (b - 1) \<le> m" and hi: "m < 2 ^ b"
    unfolding b_def by (rule conjunct1, rule conjunct2)
  from assms hi have "(2::nat) ^ 1024 < 2 ^ b" by (rule le_less_trans)
  then have b: "1024 < b" by (rule power_less_imp_less_exp[of 2, rotated]) simp
  from p53 assms have "2 ^ 53 \<le> m" by (rule order_trans)
  then have big: "\<not> m < 2 ^ 53" by (rule leD)
  from b have split: "b - 1 = 52 + e" unfolding e_def by linarith
  from lo have "(2::nat) ^ (52 + e) \<le> m" unfolding split .
  then have "(2::nat) ^ 52 * 2 ^ e \<le> m" by (simp only: power_add)
  then have q: "2 ^ 52 \<le> q"
    unfolding q_def
    by (simp only: less_eq_div_iff_mult_less_eq zero_less_power zero_less_numeral)
  from b have "1024 \<le> b - 1" by linarith
  then have "(2::nat) ^ 1024 \<le> 2 ^ (b - 1)" by (intro power_increasing) simp_all
  also have "\<dots> = 2 ^ 52 * 2 ^ e" unfolding split by (simp only: power_add)
  also from q have "\<dots> \<le> q * 2 ^ e" by (rule mult_le_mono1)
  also have "\<dots> \<le> (if 2 ^ (e - 1) < m mod 2 ^ e \<or> (m mod 2 ^ e = 2 ^ (e - 1) \<and> odd q)
                     then q + 1 else q) * 2 ^ e"
    by (rule round_up_or_keep)
  also have "\<dots> = round_significand m"
    unfolding q_def e_def b_def by (rule round_significand_big[OF big, symmetric])
  finally show ?thesis .
qed

lemma float_of_int_overflow:
  assumes "2 ^ 1024 \<le> \<bar>n\<bar>"
  shows "float_of_int n = Inl OverflowError"
proof -
  from assms have "nat (2 ^ 1024) \<le> nat \<bar>n\<bar>" by (rule nat_mono)
  then have "2 ^ 1024 \<le> nat \<bar>n\<bar>" by (simp only: nat_power_eq nat_numeral zero_le_numeral)
  then have "2 ^ 1024 \<le> round_significand (nat \<bar>n\<bar>)" by (rule round_significand_large)
  then show ?thesis
    by (simp only: float_of_int_def Let_def if_True)
qed

lemma float_of_int_small:
  assumes "\<bar>n\<bar> < 2 ^ 53"
  shows "float_of_int n = Inr (Fin (of_int n))"
proof -
  have p53: "(2::nat) ^ 53 \<le> 2 ^ 1024" by (rule power_increasing) simp_all
  from assms have "nat \<bar>n\<bar> < nat (2 ^ 53)" by (simp only: nat_less_eq_zless abs_ge_zero)
  then have s: "nat \<bar>n\<bar> < 2 ^ 53" by (simp only: nat_power_eq nat_numeral zero_le_numeral)
  then have r: "round_significand (nat \<bar>n\<bar>) = nat \<bar>n\<bar>"
    by (simp only: round_significand_def if_True)
  from s p53 have "nat \<bar>n\<bar> < 2 ^ 1024" by (rule less_le_trans)
  then have o: "\<not> 2 ^ 1024 \<le> nat \<bar>n\<bar>" by (simp only: not_le)
  have "sgn n * int (nat \<bar>n\<bar>) = n" by (simp add: sgn_if)
  with r o show ?thesis
    by (simp only: float_of_int_def Let_def if_False)
qed

text \<open>
  C5. The extractor's \<^verbatim>\<open>try\<close> catches \<^verbatim>\<open>TypeError\<close> and \<^verbatim>\<open>ValueError\<close>. An integer
  balance too large for a float makes \<^verbatim>\<open>float(...)\<close> raise \<^verbatim>\<open>OverflowError\<close>, which is
  neither, so the call raises instead of returning \<^verbatim>\<open>None\<close>.
\<close>

theorem extract_balance_overflow_escapes:
  "extract_balance_from_info E
     (PDict [(KStr ''a'', PList [PDict [(KStr ''balance'', PInt (10 ^ 400))]])])
     = Inl OverflowError"
proof -
  have "(2::int) ^ 1024 \<le> \<bar>10 ^ 400\<bar>" by simp
  then have "float_of_int (10 ^ 400) = Inl OverflowError" by (rule float_of_int_overflow)
  then show ?thesis
    by (simp add: extract_balance_from_info_def balance_of_mapping_def dict_get_def py_float_def)
qed

text \<open>
  The rest of what C5 states holds: \<^verbatim>\<open>OverflowError\<close> is the only exception that can leave
  the extractor; input that is not a mapping, and a scan without a match, give \<^verbatim>\<open>None\<close>; the
  first balance-bearing element decides, \<^verbatim>\<open>services[0].balance\<close> before the element's own
  balance; a balance that \<^verbatim>\<open>float(...)\<close> rejects with \<^verbatim>\<open>TypeError\<close> or \<^verbatim>\<open>ValueError\<close> ends the
  call with \<^verbatim>\<open>None\<close>.
\<close>

lemma float_of_int_error: "float_of_int n = Inl e \<Longrightarrow> e = OverflowError"
  by (auto simp: float_of_int_def Let_def split: if_splits)

lemma py_float_error:
  "py_float E v = Inl e \<Longrightarrow> e = TypeError \<or> e = ValueError \<or> e = OverflowError"
  by (auto simp: py_float_def split: pyval.splits option.splits dest: float_of_int_error)

lemma balance_of_mapping_error:
  "balance_of_mapping E kv = Some (Inl e) \<Longrightarrow>
     e = TypeError \<or> e = ValueError \<or> e = OverflowError"
  by (auto simp: balance_of_mapping_def Let_def
      split: pyval.splits list.splits if_splits dest: py_float_error)

lemma scan_list_error:
  "scan_list E xs = Some (Inl e) \<Longrightarrow> e = TypeError \<or> e = ValueError \<or> e = OverflowError"
  by (induction xs) (auto split: pyval.splits option.splits dest: balance_of_mapping_error)

lemma scan_info_error:
  "scan_info E kv = Some (Inl e) \<Longrightarrow> e = TypeError \<or> e = ValueError \<or> e = OverflowError"
  by (induction kv)
    (auto split: pyval.splits option.splits if_splits
      dest: balance_of_mapping_error scan_list_error)

lemma extract_balance_only_overflow:
  "extract_balance_from_info E info = Inl e \<Longrightarrow> e = OverflowError"
  by (auto simp: extract_balance_from_info_def
      split: pyval.splits option.splits sum.splits if_splits dest: scan_info_error)

lemma extract_balance_non_mapping:
  assumes "\<forall>kv. info \<noteq> PDict kv"
  shows "extract_balance_from_info E info = Inr None"
  using assms by (cases info) (auto simp: extract_balance_from_info_def)

lemma extract_balance_no_match:
  "scan_info E kv = None \<Longrightarrow> extract_balance_from_info E (PDict kv) = Inr None"
  by (simp add: extract_balance_from_info_def)

lemma scan_list_first_match:
  assumes "\<forall>x\<in>set pre. \<forall>kv. x = PDict kv \<longrightarrow> balance_of_mapping E kv = None"
    and "balance_of_mapping E item = Some r"
  shows "scan_list E (pre @ PDict item # rest) = Some r"
  using assms by (induction pre) (auto split: pyval.splits)

lemma balance_of_mapping_prefers_services:
  assumes "dict_get item ''services'' = PList (PDict s0 # rest)"
    and "dict_get s0 ''balance'' \<noteq> PNone"
  shows "balance_of_mapping E item = Some (py_float E (dict_get s0 ''balance''))"
  using assms by (simp add: balance_of_mapping_def)

lemma extract_balance_conversion_stops:
  assumes "scan_info E kv = Some (Inl e)" and "e = TypeError \<or> e = ValueError"
  shows "extract_balance_from_info E (PDict kv) = Inr None"
  using assms by (auto simp: extract_balance_from_info_def)

lemma extract_balance_examples:
  "extract_balance_from_info E
     (PDict [(KStr ''a'',
        PList [PDict [(KStr ''services'',
                 PList [PDict [(KStr ''balance'', PFloat (Fin (25 / 2)))]])]])])
     = Inr (Some (Fin (25 / 2)))"
  "extract_balance_from_info E (PDict [(KStr ''a'', PList [PDict [(KStr ''balance'', PInt 7)]])])
     = Inr (Some (Fin 7))"
  "float_of_str E ''bad'' = None \<Longrightarrow>
   extract_balance_from_info E
     (PDict [(KStr ''a'', PList [PDict [(KStr ''balance'', PStr ''bad'')]])]) = Inr None"
  "extract_balance_from_info E (PDict []) = Inr None"
proof -
  have "float_of_int 7 = Inr (Fin (of_int 7))" by (rule float_of_int_small) simp
  then show "extract_balance_from_info E
      (PDict [(KStr ''a'', PList [PDict [(KStr ''balance'', PInt 7)]])]) = Inr (Some (Fin 7))"
    by (simp add: extract_balance_from_info_def balance_of_mapping_def dict_get_def py_float_def)
qed (simp_all add: extract_balance_from_info_def balance_of_mapping_def dict_get_def py_float_def)

section \<open>Properties of the detail fetchers\<close>









section \<open>Properties of the path resolver and of the reading submission\<close>

text \<open>
  A match of the scan: what each loop has established when it returns a path.
\<close>

lemma find_counter_sound:
  "find_counter E s ids a l cs = Inr (Some t) \<Longrightarrow>
     \<exists>c num counters counter uuid dev.
        t = (a, l, c) \<and> c \<in> set cs
        \<and> get_account_number E s a l = Inr num
        \<and> get_counters E s a l = Inr counters
        \<and> py_getitem_idx counters c = Inr counter
        \<and> py_get counter (ATTR_UUID E) PNone = Inr uuid \<and> truthy uuid
        \<and> make_device_id E num uuid = Inr dev \<and> ids = {(DOMAIN E, dev)}"
proof (induction cs)
  case Nil
  then show ?case by simp
next
  case (Cons c cs)
  from Cons.prems obtain num where num: "get_account_number E s a l = Inr num"
    by (cases "get_account_number E s a l") auto
  from Cons.prems num obtain counters where cn: "get_counters E s a l = Inr counters"
    by (cases "get_counters E s a l") auto
  from Cons.prems num cn obtain counter where ct: "py_getitem_idx counters c = Inr counter"
    by (cases "py_getitem_idx counters c") auto
  from Cons.prems num cn ct obtain uuid where
    uu: "py_get counter (ATTR_UUID E) PNone = Inr uuid"
    by (cases "py_get counter (ATTR_UUID E) PNone") auto
  from Cons.prems num cn ct uu have tr: "truthy uuid"
    by (cases "truthy uuid") auto
  from Cons.prems num cn ct uu tr obtain dev where dv: "make_device_id E num uuid = Inr dev"
    by (cases "make_device_id E num uuid") auto
  show ?case
  proof (cases "ids = {(DOMAIN E, dev)}")
    case True
    with Cons.prems num cn ct uu tr dv have "t = (a, l, c)" by simp
    with num cn ct uu tr dv True show ?thesis by auto
  next
    case False
    with Cons.prems num cn ct uu tr dv have "find_counter E s ids a l cs = Inr (Some t)" by simp
    from Cons.IH[OF this] show ?thesis by auto
  qed
qed

lemma find_lspu_sound:
  "find_lspu E s ids a ls = Inr (Some t) \<Longrightarrow>
     \<exists>l c num counters n counter uuid dev.
        t = (a, l, c) \<and> l \<in> set ls
        \<and> get_account_number E s a l = Inr num
        \<and> get_counters E s a l = Inr counters \<and> py_len counters = Inr n \<and> c < n
        \<and> py_getitem_idx counters c = Inr counter
        \<and> py_get counter (ATTR_UUID E) PNone = Inr uuid \<and> truthy uuid
        \<and> make_device_id E num uuid = Inr dev \<and> ids = {(DOMAIN E, dev)}"
proof (induction ls)
  case Nil
  then show ?case by simp
next
  case (Cons l ls)
  from Cons.prems obtain counters where cn: "get_counters E s a l = Inr counters"
    by (cases "get_counters E s a l") auto
  from Cons.prems cn obtain n where n: "py_len counters = Inr n"
    by (cases "py_len counters") auto
  from Cons.prems cn n obtain r where r: "find_counter E s ids a l [0..<n] = Inr r"
    by (cases "find_counter E s ids a l [0..<n]") auto
  show ?case
  proof (cases r)
    case None
    with Cons.prems cn n r have "find_lspu E s ids a ls = Inr (Some t)" by simp
    from Cons.IH[OF this] show ?thesis by auto
  next
    case (Some t')
    with Cons.prems cn n r have "t' = t" by simp
    with Some r have "find_counter E s ids a l [0..<n] = Inr (Some t)" by simp
    from find_counter_sound[OF this] cn n show ?thesis by auto
  qed
qed

lemma find_account_sound:
  "find_account E s ids as = Inr (Some t) \<Longrightarrow>
     \<exists>a l c accs k num counters n counter uuid dev.
        t = (a, l, c) \<and> a \<in> set as
        \<and> get_lspu_accounts E s a = Inr accs \<and> py_len accs = Inr k \<and> l < k
        \<and> get_account_number E s a l = Inr num
        \<and> get_counters E s a l = Inr counters \<and> py_len counters = Inr n \<and> c < n
        \<and> py_getitem_idx counters c = Inr counter
        \<and> py_get counter (ATTR_UUID E) PNone = Inr uuid \<and> truthy uuid
        \<and> make_device_id E num uuid = Inr dev \<and> ids = {(DOMAIN E, dev)}"
proof (induction as)
  case Nil
  then show ?case by simp
next
  case (Cons a as)
  from Cons.prems obtain accs where ac: "get_lspu_accounts E s a = Inr accs"
    by (cases "get_lspu_accounts E s a") auto
  from Cons.prems ac obtain k where k: "py_len accs = Inr k"
    by (cases "py_len accs") auto
  from Cons.prems ac k obtain r where r: "find_lspu E s ids a [0..<k] = Inr r"
    by (cases "find_lspu E s ids a [0..<k]") auto
  show ?case
  proof (cases r)
    case None
    with Cons.prems ac k r have "find_account E s ids as = Inr (Some t)" by simp
    from Cons.IH[OF this] show ?thesis by auto
  next
    case (Some t')
    with Cons.prems ac k r have "t' = t" by simp
    with Some r have "find_lspu E s ids a [0..<k] = Inr (Some t)" by simp
    from find_lspu_sound[OF this] ac k show ?thesis by auto
  qed
qed

lemma find_account_by_device_id_sound:
  assumes "find_account_by_device_id E s device_id = Inr (Some a, Some l, Some c)"
  shows "\<exists>accs k num counters n counter uuid dev.
        get_lspu_accounts E s a = Inr accs \<and> py_len accs = Inr k \<and> l < k
        \<and> get_account_number E s a l = Inr num
        \<and> get_counters E s a l = Inr counters \<and> py_len counters = Inr n \<and> c < n
        \<and> py_getitem_idx counters c = Inr counter
        \<and> py_get counter (ATTR_UUID E) PNone = Inr uuid \<and> truthy uuid
        \<and> make_device_id E num uuid = Inr dev
        \<and> device_registry s device_id = Some {(DOMAIN E, dev)}"
proof -
  from assms obtain ids where ids: "device_registry s device_id = Some ids"
    by (cases "device_registry s device_id") (auto simp: find_account_by_device_id_def)
  from assms ids have "find_account E s ids (map fst (get_accounts s)) = Inr (Some (a, l, c))"
    by (auto simp: find_account_by_device_id_def split: sum.splits option.splits)
  from find_account_sound[OF this] ids show ?thesis by auto
qed

lemma find_account_by_device_id_shape:
  assumes "find_account_by_device_id E s device_id = Inr (x, y, z)"
  shows "(x = None \<and> y = None \<and> z = None) \<or> (\<exists>a l c. x = Some a \<and> y = Some l \<and> z = Some c)"
  using assms
  by (auto simp: find_account_by_device_id_def split: sum.splits option.splits)

lemma py_len_truthy: "py_len v = Inr n \<Longrightarrow> 0 < n \<Longrightarrow> truthy v"
  by (cases v) (auto simp: py_len_def)

text \<open>
  C10. A path that the resolver returns for a device id re-derives the identifier recorded
  for that device: \<^verbatim>\<open>make_device_id\<close> of the account number at \<open>(a, l)\<close> and the counter
  \<^verbatim>\<open>uuid\<close> at \<open>(a, l, c)\<close> succeeds, and the device's identifier set is exactly the pair of
  the domain and that identifier.
\<close>

theorem device_resolution_round_trip:
  assumes "find_account_by_device_id E s device_id = Inr (Some a, Some l, Some c)"
  shows "\<exists>dev. stable_id E s a l c = Inr dev
           \<and> device_registry s device_id = Some {(DOMAIN E, dev)}"
proof -
  from find_account_by_device_id_sound[OF assms] obtain num counters counter uuid dev where
    "get_account_number E s a l = Inr num" "get_counters E s a l = Inr counters"
    "py_getitem_idx counters c = Inr counter" "py_get counter (ATTR_UUID E) PNone = Inr uuid"
    "make_device_id E num uuid = Inr dev" "device_registry s device_id = Some {(DOMAIN E, dev)}"
    by blast
  then show ?thesis by (simp add: stable_id_def)
qed

lemmas resolver_defs =
  find_account_by_device_id_def get_accounts_def get_lspu_accounts_def is_els_def
  get_counters_def get_account_number_def stable_id_def

lemma example_find:
  "find_account_by_device_id example_env example_els_state ''dev1'' =
     Inr (Some 5, Some 0, Some 0)"
  by (simp add: resolver_defs example_defs python_defs upt_rec)

lemma example_find_unlinked:
  "find_account_by_device_id example_env example_unlinked_state ''dev1'' =
     Inr (Some 5, Some 0, Some 0)"
  by (simp add: resolver_defs example_defs python_defs upt_rec)

theorem device_resolution_round_trip_witness:
  "find_account_by_device_id example_env example_els_state ''dev1'' =
     Inr (Some 5, Some 0, Some 0)
   \<and> stable_id example_env example_els_state 5 0 0 = Inr ''100_u1''
   \<and> device_registry example_els_state ''dev1'' = Some {(''mygas'', ''100_u1'')}"
proof -
  from device_resolution_round_trip[OF example_find] obtain dev where
    d: "stable_id example_env example_els_state 5 0 0 = Inr dev"
       "device_registry example_els_state ''dev1'' = Some {(DOMAIN example_env, dev)}"
    by blast
  have "stable_id example_env example_els_state 5 0 0 = Inr ''100_u1''"
    by (simp add: resolver_defs example_defs python_defs)
  with d have "dev = ''100_u1''" by simp
  with d example_find show ?thesis by (simp add: example_env_def)
qed

text \<open>
  C9, as stated: whenever the device id resolves to a full path, the reading is submitted.
  On the code the submission also needs the resolved sub-account record to carry its linked
  account id: in the example below the path resolves, the record has no such entry, and the
  call raises \<^verbatim>\<open>KeyError\<close> without a remote call.
\<close>

theorem send_readings_unlinked_counterexample:
  "find_account_by_device_id example_env example_unlinked_state ''dev1'' =
     Inr (Some 5, Some 0, Some 0)
   \<and> async_send_readings example_env example_remote ''dev1'' (PFloat (Fin 3))
       example_unlinked_state = (Inl KeyError, example_unlinked_state)"
  by (simp add: async_send_readings_def send_readings_at_def resolver_defs example_defs
      python_defs upt_rec)

text \<open>
  C9, amended. A resolution that raises makes the call raise the same exception, and a
  resolution with a component missing makes it raise \<^verbatim>\<open>AssertionError\<close>; in both cases no
  remote call is made. When the device id resolves to a full path \<open>(a, l, c)\<close>, the
  sub-account record at \<open>(a, l)\<close> and the counter at \<open>(a, l, c)\<close> exist and the call submits,
  as one remote call, the record's linked account id, the counter's \<^verbatim>\<open>uuid\<close>, the given value
  and the ELS id (\<open>a\<close> when the shape is ELS, none otherwise), provided the record has a linked
  account id; a record without one raises \<^verbatim>\<open>KeyError\<close>.
\<close>

theorem send_readings_resolution:
  "(\<forall>e. find_account_by_device_id E s device_id = Inl e
        \<longrightarrow> async_send_readings E R device_id val s = (Inl e, s))
   \<and> (\<forall>x y z. find_account_by_device_id E s device_id = Inr (x, y, z)
          \<and> (x = None \<or> y = None \<or> z = None)
        \<longrightarrow> async_send_readings E R device_id val s = (Inl AssertionError, s))
   \<and> (\<forall>a l c. find_account_by_device_id E s device_id = Inr (Some a, Some l, Some c)
        \<longrightarrow> (\<exists>accs acc counters counter uuid.
               get_lspu_accounts E s a = Inr accs \<and> py_getitem_idx accs l = Inr acc
               \<and> get_counters E s a l = Inr counters
               \<and> py_getitem_idx counters c = Inr counter
               \<and> py_getitem_str counter (ATTR_UUID E) = Inr uuid
               \<and> async_send_readings E R device_id val s =
                   (case py_getitem_str acc (ATTR_ACCOUNT_ID E) of
                      Inl e \<Rightarrow> (Inl e, s)
                    | Inr lspu_id \<Rightarrow>
                        api_call R
                          (SendReadings lspu_id uuid val (if is_els s then Some a else None))
                          s)))"
proof -
  have raised: "async_send_readings E R device_id val s = (Inl e, s)"
    if "find_account_by_device_id E s device_id = Inl e" for e
    using that by (simp add: async_send_readings_def)
  have missing: "async_send_readings E R device_id val s = (Inl AssertionError, s)"
    if "find_account_by_device_id E s device_id = Inr (x, y, z) \<and> (x = None \<or> y = None \<or> z = None)"
    for x y z
  proof -
    from that find_account_by_device_id_shape[of E s device_id x y z]
    have "x = None" by auto
    with that show ?thesis by (simp add: async_send_readings_def)
  qed
  have full: "\<exists>accs acc counters counter uuid.
               get_lspu_accounts E s a = Inr accs \<and> py_getitem_idx accs l = Inr acc
               \<and> get_counters E s a l = Inr counters
               \<and> py_getitem_idx counters c = Inr counter
               \<and> py_getitem_str counter (ATTR_UUID E) = Inr uuid
               \<and> async_send_readings E R device_id val s =
                   (case py_getitem_str acc (ATTR_ACCOUNT_ID E) of
                      Inl e \<Rightarrow> (Inl e, s)
                    | Inr lspu_id \<Rightarrow>
                        api_call R
                          (SendReadings lspu_id uuid val (if is_els s then Some a else None))
                          s)"
    if f: "find_account_by_device_id E s device_id = Inr (Some a, Some l, Some c)" for a l c
  proof -
    from find_account_by_device_id_sound[OF f] obtain accs k counters n counter uuid where
      accs: "get_lspu_accounts E s a = Inr accs" "py_len accs = Inr k" "l < k"
      and cn: "get_counters E s a l = Inr counters" "py_len counters = Inr n" "c < n"
      and ct: "py_getitem_idx counters c = Inr counter"
      and uu: "py_get counter (ATTR_UUID E) PNone = Inr uuid" "truthy uuid"
      by blast
    from cn(1) accs(1) obtain acc where
      acc: "py_getitem_idx accs l = Inr acc" "py_get acc (ATTR_COUNTERS E) (PList []) = Inr counters"
      by (auto simp: get_counters_def split: sum.splits)
    from accs have t1: "truthy accs" by (auto intro: py_len_truthy)
    from cn have t3: "truthy counters" by (auto intro: py_len_truthy)
    from acc(2) obtain kvs where kvs: "acc = PDict kvs"
      by (cases acc) (auto simp: py_get_def)
    have "kvs \<noteq> []"
    proof
      assume "kvs = []"
      with acc(2) kvs have "counters = PList []" by (simp add: py_get_def)
      with cn(2,3) show False by (simp add: py_len_def)
    qed
    with kvs have t2: "truthy acc" by simp
    from uu(1) obtain kc where kc: "counter = PDict kc"
      by (cases counter) (auto simp: py_get_def)
    from uu kc have gi: "py_getitem_str counter (ATTR_UUID E) = Inr uuid"
      by (auto simp: py_get_def py_getitem_str_def split: option.splits)
    from f accs(1) acc(1) cn(1) ct gi t1 t2 t3 uu(2)
    have "async_send_readings E R device_id val s =
        (case py_getitem_str acc (ATTR_ACCOUNT_ID E) of
           Inl e \<Rightarrow> (Inl e, s)
         | Inr lspu_id \<Rightarrow>
             api_call R (SendReadings lspu_id uuid val (if is_els s then Some a else None)) s)"
      by (simp add: async_send_readings_def send_readings_at_def Let_def split: sum.splits)
    with accs(1) acc(1) cn(1) ct gi show ?thesis by blast
  qed
  from raised missing full show ?thesis by blast
qed

lemma example_find_unknown:
  "find_account_by_device_id example_env example_els_state ''dev2'' = Inl AssertionError"
  by (simp add: resolver_defs example_defs)

theorem send_readings_resolution_witness:
  "find_account_by_device_id example_env example_els_state ''dev2'' = Inl AssertionError
   \<and> async_send_readings example_env example_remote ''dev2'' (PFloat (Fin 3)) example_els_state
       = (Inl AssertionError, example_els_state)
   \<and> find_account_by_device_id example_env example_els_state ''dev1'' =
       Inr (Some 5, Some 0, Some 0)
   \<and> async_send_readings example_env example_remote ''dev1'' (PFloat (Fin 3)) example_els_state
       = (Inr (PList []),
          example_els_state\<lparr>api_log :=
            [(SendReadings (PInt 77) (PStr ''u1'') (PFloat (Fin 3)) (Some 5), Inr (PList []))]\<rparr>)"
proof -
  note t = send_readings_resolution[of example_env example_els_state _ example_remote "PFloat (Fin 3)"]
  from t[of "''dev2''"] example_find_unknown
  have a: "async_send_readings example_env example_remote ''dev2'' (PFloat (Fin 3))
      example_els_state = (Inl AssertionError, example_els_state)"
    by blast
  from t[of "''dev1''"] example_find obtain accs acc counters counter uuid where
    r: "get_lspu_accounts example_env example_els_state 5 = Inr accs"
       "py_getitem_idx accs 0 = Inr acc"
       "get_counters example_env example_els_state 5 0 = Inr counters"
       "py_getitem_idx counters 0 = Inr counter"
       "py_getitem_str counter (ATTR_UUID example_env) = Inr uuid"
       "async_send_readings example_env example_remote ''dev1'' (PFloat (Fin 3)) example_els_state =
          (case py_getitem_str acc (ATTR_ACCOUNT_ID example_env) of
             Inl e \<Rightarrow> (Inl e, example_els_state)
           | Inr lspu_id \<Rightarrow>
               api_call example_remote
                 (SendReadings lspu_id uuid (PFloat (Fin 3))
                    (if is_els example_els_state then Some 5 else None))
                 example_els_state)"
    by blast
  from r(1,2) have acc: "acc = PDict [(KStr ''accountId'', PInt 77),
      (KStr ''counters'', PList [PDict [(KStr ''uuid'', PStr ''u1'')]])]"
    by (auto simp: resolver_defs example_defs python_defs)
  from r(3,4,5) have uuid: "uuid = PStr ''u1''"
    by (auto simp: resolver_defs example_defs python_defs)
  have e: "is_els example_els_state" "api_log example_els_state = []"
    by (simp_all add: is_els_def example_defs)
  from r(6) have b: "async_send_readings example_env example_remote ''dev1'' (PFloat (Fin 3))
      example_els_state =
      (Inr (PList []),
       example_els_state\<lparr>api_log :=
         [(SendReadings (PInt 77) (PStr ''u1'') (PFloat (Fin 3)) (Some 5), Inr (PList []))]\<rparr>)"
    unfolding acc uuid
    by (simp add: e py_getitem_str_def api_call_eq example_env_def example_remote_def)
  from example_find_unknown a example_find b show ?thesis by blast
qed

end
